theory Spec2Isabelle
  imports Complex_Main "HOL-Library.Word"
begin

section \<open>Numeric types of the target\<close>

text \<open>
  The firmware runs on an ESP32 (ILP32): \<^verbatim>\<open>int\<close> and \<^verbatim>\<open>long\<close> are 32-bit signed,
  \<^verbatim>\<open>unsigned long\<close> is 32-bit unsigned, \<^verbatim>\<open>float\<close> is IEEE single precision.

  A \<^verbatim>\<open>float\<close> is modelled by the value it denotes: not-a-number, an infinity, or a
  real number. The code only stores floats, copies them and compares them with the
  constants -40, 0, 10, 50, 80, 100, 300 and 1000, all of which are floats themselves, so
  every comparison of the code is the comparison of the denoted values, and an ordered
  comparison with NaN is false.
\<close>

datatype cfloat = NaN | NegInf | Fin real | PosInf

fun isnan :: "cfloat \<Rightarrow> bool" where
  "isnan NaN = True"
| "isnan _ = False"

text \<open>\<^verbatim>\<open>a < b\<close> on floats.\<close>

fun flt_lt :: "cfloat \<Rightarrow> cfloat \<Rightarrow> bool" where
  "flt_lt NaN _ = False"
| "flt_lt _ NaN = False"
| "flt_lt (Fin x) (Fin y) = (x < y)"
| "flt_lt PosInf _ = False"
| "flt_lt _ NegInf = False"
| "flt_lt NegInf _ = True"
| "flt_lt _ PosInf = True"

text \<open>\<^verbatim>\<open>a > b\<close>, \<^verbatim>\<open>a <= b\<close> and \<^verbatim>\<open>a >= b\<close> on floats.\<close>

definition flt_gt :: "cfloat \<Rightarrow> cfloat \<Rightarrow> bool" where
  "flt_gt a b = flt_lt b a"

definition flt_le :: "cfloat \<Rightarrow> cfloat \<Rightarrow> bool" where
  "flt_le a b = (\<not> isnan a \<and> \<not> isnan b \<and> \<not> flt_lt b a)"

definition flt_ge :: "cfloat \<Rightarrow> cfloat \<Rightarrow> bool" where
  "flt_ge a b = flt_le b a"

text \<open>
  Signed 32-bit arithmetic is written on \<open>int\<close> with the two's complement wrap-around
  of the machine spelled out; division truncates towards zero.
\<close>

definition INT_MAX :: int where
  "INT_MAX = 2147483647"

definition LONG_MAX :: int where
  "LONG_MAX = 2147483647"

definition wrap32 :: "int \<Rightarrow> int" where
  "wrap32 x = (x + 2147483648) mod 4294967296 - 2147483648"

definition cdiv :: "int \<Rightarrow> int \<Rightarrow> int" where
  "cdiv a b = sgn a * sgn b * (\<bar>a\<bar> div \<bar>b\<bar>)"

section \<open>Device access\<close>

text \<open>
  The sensors, the clock and the serial port are outside the program. Each device is an
  oracle: the value its k-th call returns, and the number of calls made so far. Every
  access is also appended to a trace, so that the order of delays, readings and reports
  can be stated.

  \<open>dht_new\<close> and \<open>bh_new\<close> say whether \<^verbatim>\<open>new\<close> returns an object for the device, which
  the code tests. \<open>computeHeatIndex\<close> is the library's function, left open. The
  converter is set to 12 bits, so its samples are between 0 and 4095; \<open>adc_src\<close> has the
  type \<^verbatim>\<open>int\<close> of the variable the code stores them in, and a property that needs the
  range says so.
\<close>

datatype event =
    EvDelay nat
  | EvDelayMicroseconds nat
  | EvDhtBegin
  | EvReadTemperature
  | EvReadHumidity
  | EvBhBegin
  | EvReadLightLevel
  | EvAnalogRead
  | EvMillis
  | EvPrint cfloat cfloat cfloat int int

record world =
  dht_new :: bool
  temp_src :: "nat \<Rightarrow> cfloat"
  temp_calls :: nat
  hum_src :: "nat \<Rightarrow> cfloat"
  hum_calls :: nat
  computeHeatIndex :: "cfloat \<Rightarrow> cfloat \<Rightarrow> cfloat"
  bh_new :: bool
  bh_begin_ok :: bool
  lux_src :: "nat \<Rightarrow> cfloat"
  lux_calls :: nat
  adc_src :: "nat \<Rightarrow> int"
  adc_calls :: nat
  millis_src :: "nat \<Rightarrow> 32 word"
  millis_calls :: nat
  trace :: "event list"

definition emit :: "event \<Rightarrow> world \<Rightarrow> world" where
  "emit e w = w\<lparr>trace := trace w @ [e]\<rparr>"

definition delay :: "nat \<Rightarrow> world \<Rightarrow> world" where
  "delay ms w = emit (EvDelay ms) w"

definition delayMicroseconds :: "nat \<Rightarrow> world \<Rightarrow> world" where
  "delayMicroseconds us w = emit (EvDelayMicroseconds us) w"

definition dev_dht_begin :: "world \<Rightarrow> world" where
  "dev_dht_begin w = emit EvDhtBegin w"

definition readTemperature :: "world \<Rightarrow> cfloat \<times> world" where
  "readTemperature w =
     (temp_src w (temp_calls w), emit EvReadTemperature (w\<lparr>temp_calls := temp_calls w + 1\<rparr>))"

definition readHumidity :: "world \<Rightarrow> cfloat \<times> world" where
  "readHumidity w =
     (hum_src w (hum_calls w), emit EvReadHumidity (w\<lparr>hum_calls := hum_calls w + 1\<rparr>))"

definition dev_bh_begin :: "world \<Rightarrow> bool \<times> world" where
  "dev_bh_begin w = (bh_begin_ok w, emit EvBhBegin w)"

definition readLightLevel :: "world \<Rightarrow> cfloat \<times> world" where
  "readLightLevel w =
     (lux_src w (lux_calls w), emit EvReadLightLevel (w\<lparr>lux_calls := lux_calls w + 1\<rparr>))"

definition analogRead :: "world \<Rightarrow> int \<times> world" where
  "analogRead w =
     (adc_src w (adc_calls w), emit EvAnalogRead (w\<lparr>adc_calls := adc_calls w + 1\<rparr>))"

definition millis :: "world \<Rightarrow> 32 word \<times> world" where
  "millis w =
     (millis_src w (millis_calls w), emit EvMillis (w\<lparr>millis_calls := millis_calls w + 1\<rparr>))"

section \<open>Temperature and humidity sensor (dht\_sensor.cpp)\<close>

definition TEMP_MIN :: cfloat where
  "TEMP_MIN = Fin (- 40)"

definition TEMP_MAX :: cfloat where
  "TEMP_MAX = Fin 80"

definition HUMIDITY_MIN :: cfloat where
  "HUMIDITY_MIN = Fin 0"

definition HUMIDITY_MAX :: cfloat where
  "HUMIDITY_MAX = Fin 100"

record DHTReading =
  temperature :: cfloat
  humidity :: cfloat
  heatIndex :: cfloat
  dht_isValid :: bool

text \<open>\<open>dht_ptr\<close> says that the device pointer is not null.\<close>

record DHTSensor =
  dht_ptr :: bool
  lastTemp :: cfloat
  lastHumidity :: cfloat
  dht_initialized :: bool

definition DHTSensor_new :: DHTSensor where
  "DHTSensor_new =
     \<lparr>dht_ptr = False, lastTemp = Fin 0, lastHumidity = Fin 0, dht_initialized = False\<rparr>"

definition DHT_begin :: "world \<Rightarrow> DHTSensor \<Rightarrow> bool \<times> DHTSensor \<times> world" where
  "DHT_begin w s =
     (let s1 = s\<lparr>dht_ptr := dht_new w\<rparr> in
      if \<not> dht_ptr s1 then (False, s1, w)
      else
        let w1 = dev_dht_begin w;
            w2 = delay 2000 w1;
            (temp, w3) = readTemperature w2;
            (hum, w4) = readHumidity w3;
            (temp', hum', w5) =
              (if isnan temp \<or> isnan hum then
                 let w41 = delay 2000 w4;
                     (temp2, w42) = readTemperature w41;
                     (hum2, w43) = readHumidity w42
                 in (temp2, hum2, w43)
               else (temp, hum, w4));
            s2 = s1\<lparr>dht_initialized := \<not> isnan temp' \<and> \<not> isnan hum'\<rparr>;
            s3 = (if dht_initialized s2
                  then s2\<lparr>lastTemp := temp', lastHumidity := hum'\<rparr> else s2)
        in (dht_initialized s3, s3, w5))"

definition validateReading :: "cfloat \<Rightarrow> cfloat \<Rightarrow> bool" where
  "validateReading temp hum =
     (if isnan temp \<or> isnan hum then False
      else if flt_lt temp TEMP_MIN \<or> flt_gt temp TEMP_MAX then False
      else if flt_lt hum HUMIDITY_MIN \<or> flt_gt hum HUMIDITY_MAX then False
      else True)"

definition DHT_read :: "world \<Rightarrow> DHTSensor \<Rightarrow> DHTReading \<times> DHTSensor \<times> world" where
  "DHT_read w s =
     (if \<not> dht_initialized s \<or> \<not> dht_ptr s then
        (\<lparr>temperature = Fin 0, humidity = Fin 0, heatIndex = Fin 0, dht_isValid = False\<rparr>, s, w)
      else
        let (temp, w1) = readTemperature w;
            (hum, w2) = readHumidity w1
        in if validateReading temp hum then
             (\<lparr>temperature = temp, humidity = hum,
               heatIndex = computeHeatIndex w2 temp hum, dht_isValid = True\<rparr>,
              s\<lparr>lastTemp := temp, lastHumidity := hum\<rparr>, w2)
           else
             (\<lparr>temperature = lastTemp s, humidity = lastHumidity s,
               heatIndex = computeHeatIndex w2 (lastTemp s) (lastHumidity s),
               dht_isValid = False\<rparr>,
              s, w2))"

section \<open>Light sensor (light\_sensor.cpp)\<close>

definition LIGHT_DARK :: cfloat where
  "LIGHT_DARK = Fin 10"

definition LIGHT_DIM :: cfloat where
  "LIGHT_DIM = Fin 50"

definition LIGHT_NORMAL :: cfloat where
  "LIGHT_NORMAL = Fin 300"

definition LIGHT_BRIGHT :: cfloat where
  "LIGHT_BRIGHT = Fin 1000"

datatype LightCondition =
    CONDITION_DARK
  | CONDITION_DIM
  | CONDITION_NORMAL
  | CONDITION_BRIGHT
  | CONDITION_VERY_BRIGHT

text \<open>The value of an enumerator, which orders the conditions.\<close>

fun condition_value :: "LightCondition \<Rightarrow> nat" where
  "condition_value CONDITION_DARK = 0"
| "condition_value CONDITION_DIM = 1"
| "condition_value CONDITION_NORMAL = 2"
| "condition_value CONDITION_BRIGHT = 3"
| "condition_value CONDITION_VERY_BRIGHT = 4"

record LightReading =
  lux :: cfloat
  condition :: LightCondition
  light_isValid :: bool

record LightSensor =
  bh_ptr :: bool
  light_initialized :: bool
  lastLux :: cfloat

definition LightSensor_new :: LightSensor where
  "LightSensor_new = \<lparr>bh_ptr = False, light_initialized = False, lastLux = Fin 0\<rparr>"

definition getCondition :: "cfloat \<Rightarrow> LightCondition" where
  "getCondition l =
     (if flt_lt l LIGHT_DARK then CONDITION_DARK
      else if flt_lt l LIGHT_DIM then CONDITION_DIM
      else if flt_lt l LIGHT_NORMAL then CONDITION_NORMAL
      else if flt_lt l LIGHT_BRIGHT then CONDITION_BRIGHT
      else CONDITION_VERY_BRIGHT)"

definition Light_begin :: "world \<Rightarrow> LightSensor \<Rightarrow> bool \<times> LightSensor \<times> world" where
  "Light_begin w s =
     (let s1 = s\<lparr>bh_ptr := bh_new w\<rparr> in
      if \<not> bh_ptr s1 then (False, s1, w)
      else
        let (ok, w1) = dev_bh_begin w;
            s2 = s1\<lparr>light_initialized := ok\<rparr>
        in if light_initialized s2 then
             let w2 = delay 180 w1;
                 (l, w3) = readLightLevel w2;
                 s3 = (if flt_ge l (Fin 0) then s2\<lparr>lastLux := l\<rparr> else s2)
             in (light_initialized s3, s3, w3)
           else (light_initialized s2, s2, w1))"

definition Light_read :: "world \<Rightarrow> LightSensor \<Rightarrow> LightReading \<times> LightSensor \<times> world" where
  "Light_read w s =
     (if \<not> light_initialized s \<or> \<not> bh_ptr s then
        (\<lparr>lux = Fin 0, condition = CONDITION_DARK, light_isValid = False\<rparr>, s, w)
      else
        let (l, w1) = readLightLevel w
        in if flt_ge l (Fin 0) then
             (\<lparr>lux = l, condition = getCondition l, light_isValid = True\<rparr>,
              s\<lparr>lastLux := l\<rparr>, w1)
           else
             (\<lparr>lux = lastLux s, condition = getCondition (lastLux s), light_isValid = False\<rparr>,
              s, w1))"

definition getLux :: "world \<Rightarrow> LightSensor \<Rightarrow> cfloat \<times> LightSensor \<times> world" where
  "getLux w s =
     (if \<not> light_initialized s \<or> \<not> bh_ptr s then (Fin 0, s, w)
      else
        let (l, w1) = readLightLevel w
        in if flt_ge l (Fin 0) then (l, s\<lparr>lastLux := l\<rparr>, w1)
           else (lastLux s, s, w1))"

section \<open>Microphone (microphone.cpp)\<close>

definition AUDIO_SAMPLES :: nat where
  "AUDIO_SAMPLES = 64"

definition AUDIO_NOISE_FLOOR :: int where
  "AUDIO_NOISE_FLOOR = 100"

record AudioReading =
  level :: int
  peak :: int
  average :: int
  audio_isValid :: bool

record MicrophoneSensor =
  peakLevel :: int
  lastLevel :: int
  runningSum :: int
  sampleCount :: int

definition MicrophoneSensor_new :: MicrophoneSensor where
  "MicrophoneSensor_new = \<lparr>peakLevel = 0, lastLevel = 0, runningSum = 0, sampleCount = 0\<rparr>"

text \<open>
  The sampling loop of \<^verbatim>\<open>sampleAudio\<close>; the counter \<open>i\<close> runs from 0 to
  \<open>AUDIO_SAMPLES\<close> and cannot overflow.
\<close>

function sampleAudio_loop :: "nat \<Rightarrow> int \<Rightarrow> int \<Rightarrow> int \<Rightarrow> world \<Rightarrow> int \<times> int \<times> int \<times> world" where
  "sampleAudio_loop i minVal maxVal sumv w =
     (if i < AUDIO_SAMPLES then
        (let (sample, w1) = analogRead w;
             minVal1 = (if sample < minVal then sample else minVal);
             maxVal1 = (if sample > maxVal then sample else maxVal);
             sumv1 = wrap32 (sumv + sample);
             w2 = delayMicroseconds 100 w1
         in sampleAudio_loop (i + 1) minVal1 maxVal1 sumv1 w2)
      else (minVal, maxVal, sumv, w))"
  by pat_completeness auto
termination
  by (relation "measure (\<lambda>(i, minVal, maxVal, sumv, w). AUDIO_SAMPLES - i)") auto

declare sampleAudio_loop.simps [simp del]

definition sampleAudio :: "world \<Rightarrow> int \<times> int \<times> int \<times> world" where
  "sampleAudio w =
     (let (minVal, maxVal, sumv, w1) = sampleAudio_loop 0 4095 0 0 w
      in (minVal, maxVal, cdiv sumv (int AUDIO_SAMPLES), w1))"

definition Mic_read :: "world \<Rightarrow> MicrophoneSensor \<Rightarrow> AudioReading \<times> MicrophoneSensor \<times> world" where
  "Mic_read w m =
     (let (minVal, maxVal, avgVal, w1) = sampleAudio w;
          peakToPeak0 = wrap32 (maxVal - minVal);
          peakToPeak = (if peakToPeak0 < AUDIO_NOISE_FLOOR then 0
                        else wrap32 (peakToPeak0 - AUDIO_NOISE_FLOOR));
          m1 = (if peakToPeak > peakLevel m then m\<lparr>peakLevel := peakToPeak\<rparr> else m);
          m2 = m1\<lparr>runningSum := wrap32 (runningSum m1 + peakToPeak)\<rparr>;
          m3 = m2\<lparr>sampleCount := wrap32 (sampleCount m2 + 1)\<rparr>;
          m4 = m3\<lparr>lastLevel := peakToPeak\<rparr>
      in (\<lparr>level = peakToPeak, peak = peakLevel m4,
           average = (if sampleCount m4 > 0 then cdiv (runningSum m4) (sampleCount m4) else 0),
           audio_isValid = True\<rparr>,
          m4, w1))"

definition resetPeak :: "MicrophoneSensor \<Rightarrow> MicrophoneSensor" where
  "resetPeak m = m\<lparr>peakLevel := 0, runningSum := 0, sampleCount := 0\<rparr>"

definition getPeak :: "MicrophoneSensor \<Rightarrow> int" where
  "getPeak m = peakLevel m"

definition isAboveThreshold :: "MicrophoneSensor \<Rightarrow> int \<Rightarrow> bool" where
  "isAboveThreshold m threshold = (lastLevel m > threshold)"

section \<open>Scheduler (main.cpp)\<close>

definition SENSOR_READ_INTERVAL :: "32 word" where
  "SENSOR_READ_INTERVAL = 2000"

definition AUDIO_SAMPLE_INTERVAL :: "32 word" where
  "AUDIO_SAMPLE_INTERVAL = 100"

record SensorData =
  sd_temperature :: cfloat
  sd_humidity :: cfloat
  lightLevel :: cfloat
  audioLevel :: int
  audioPeak :: int
  sd_isValid :: bool

text \<open>The globals of the program.\<close>

record sys =
  micSensor :: MicrophoneSensor
  dhtSensor :: DHTSensor
  lightSensor :: LightSensor
  lastSensorRead :: "32 word"
  lastAudioSample :: "32 word"
  sensorData :: SensorData

definition printSensorData :: "world \<Rightarrow> sys \<Rightarrow> world" where
  "printSensorData w g =
     emit (EvPrint (sd_temperature (sensorData g)) (sd_humidity (sensorData g))
                   (lightLevel (sensorData g)) (audioLevel (sensorData g))
                   (audioPeak (sensorData g))) w"

text \<open>The first block of \<^verbatim>\<open>loop\<close>: the audio timer.\<close>

definition loop_audio :: "32 word \<Rightarrow> world \<Rightarrow> sys \<Rightarrow> sys \<times> world" where
  "loop_audio currentMillis w g =
     (if currentMillis - lastAudioSample g \<ge> AUDIO_SAMPLE_INTERVAL then
        let g1 = g\<lparr>lastAudioSample := currentMillis\<rparr>;
            (audioReading, m, w1) = Mic_read w (micSensor g1);
            g2 = g1\<lparr>micSensor := m\<rparr>;
            g3 = g2\<lparr>sensorData := (sensorData g2)\<lparr>audioLevel := level audioReading\<rparr>\<rparr>;
            g4 = g3\<lparr>sensorData := (sensorData g3)\<lparr>audioPeak := peak audioReading\<rparr>\<rparr>
        in (g4, w1)
      else (g, w))"

text \<open>The second block of \<^verbatim>\<open>loop\<close>: the environmental timer.\<close>

definition loop_env :: "32 word \<Rightarrow> world \<Rightarrow> sys \<Rightarrow> sys \<times> world" where
  "loop_env currentMillis w g =
     (if currentMillis - lastSensorRead g \<ge> SENSOR_READ_INTERVAL then
        let g1 = g\<lparr>lastSensorRead := currentMillis\<rparr>;
            (dhtReading, d, w1) = DHT_read w (dhtSensor g1);
            g2 = g1\<lparr>dhtSensor := d\<rparr>;
            g3 = (if dht_isValid dhtReading
                  then g2\<lparr>sensorData := (sensorData g2)\<lparr>sd_temperature := temperature dhtReading,
                                                         sd_humidity := humidity dhtReading\<rparr>\<rparr>
                  else g2);
            (lightReading, l, w2) = Light_read w1 (lightSensor g3);
            g4 = g3\<lparr>lightSensor := l\<rparr>;
            g5 = (if light_isValid lightReading
                  then g4\<lparr>sensorData := (sensorData g4)\<lparr>lightLevel := lux lightReading\<rparr>\<rparr>
                  else g4);
            g6 = g5\<lparr>micSensor := resetPeak (micSensor g5)\<rparr>;
            w3 = printSensorData w2 g6
        in (g6, w3)
      else (g, w))"

definition loop :: "world \<Rightarrow> sys \<Rightarrow> sys \<times> world" where
  "loop w g =
     (let (currentMillis, w1) = millis w;
          (g1, w2) = loop_audio currentMillis w1 g
      in loop_env currentMillis w2 g1)"

text \<open>\<open>n\<close> passes of the main loop.\<close>

fun run :: "nat \<Rightarrow> world \<Rightarrow> sys \<Rightarrow> sys \<times> world" where
  "run 0 w g = (g, w)"
| "run (Suc n) w g = (let (g1, w1) = run n w g in loop w1 g1)"

section \<open>Notions used to state the properties\<close>

text \<open>The samples that the next call of \<^verbatim>\<open>sampleAudio\<close> will read.\<close>

definition burst :: "world \<Rightarrow> int list" where
  "burst w = map (\<lambda>j. adc_src w (adc_calls w + j)) [0..<AUDIO_SAMPLES]"

text \<open>The values the next \<open>k\<close> calls of \<^verbatim>\<open>analogRead\<close> return.\<close>

definition upcoming :: "world \<Rightarrow> nat \<Rightarrow> int set" where
  "upcoming w k = (\<lambda>j. adc_src w (adc_calls w + j)) ` {0..<k}"

text \<open>\<open>n\<close> calls of \<^verbatim>\<open>read()\<close> in a row, with the readings they return.\<close>

fun Mic_reads :: "nat \<Rightarrow> world \<Rightarrow> MicrophoneSensor \<Rightarrow> AudioReading list \<times> MicrophoneSensor \<times> world" where
  "Mic_reads 0 w m = ([], m, w)"
| "Mic_reads (Suc n) w m =
     (let (r, m1, w1) = Mic_read w m;
          (rs, m2, w2) = Mic_reads n w1 m1
      in (r # rs, m2, w2))"

text \<open>The number of reports printed so far.\<close>

fun is_report :: "event \<Rightarrow> bool" where
  "is_report (EvPrint t h l a p) = True"
| "is_report _ = False"

definition reports :: "world \<Rightarrow> nat" where
  "reports w = length (filter is_report (trace w))"

text \<open>
  Pass \<open>k\<close> of a run of the main loop (counted from 0): the clock value it reads, the
  reference time of each timer when it starts, and the test the code makes on them.
\<close>

definition tick_now :: "nat \<Rightarrow> world \<Rightarrow> sys \<Rightarrow> 32 word" where
  "tick_now k w g = (let (gk, wk) = run k w g in millis_src wk (millis_calls wk))"

definition audio_ref :: "nat \<Rightarrow> world \<Rightarrow> sys \<Rightarrow> 32 word" where
  "audio_ref k w g = lastAudioSample (fst (run k w g))"

definition env_ref :: "nat \<Rightarrow> world \<Rightarrow> sys \<Rightarrow> 32 word" where
  "env_ref k w g = lastSensorRead (fst (run k w g))"

definition audio_due :: "nat \<Rightarrow> world \<Rightarrow> sys \<Rightarrow> bool" where
  "audio_due k w g = (tick_now k w g - audio_ref k w g \<ge> AUDIO_SAMPLE_INTERVAL)"

definition env_due :: "nat \<Rightarrow> world \<Rightarrow> sys \<Rightarrow> bool" where
  "env_due k w g = (tick_now k w g - env_ref k w g \<ge> SENSOR_READ_INTERVAL)"

section \<open>Example environments\<close>

text \<open>
  A working set of devices: 22.5 degrees at 40 percent humidity, 120 lux, a microphone
  signal that alternates between 1000 and 1150 during the first burst and between 1000
  and 1153 afterwards, and a clock that advances by 50 ms from one pass of the loop to
  the next.
\<close>

definition w_base :: world where
  "w_base = \<lparr>dht_new = True, temp_src = (\<lambda>k. Fin 22.5), temp_calls = 0,
     hum_src = (\<lambda>k. Fin 40), hum_calls = 0, computeHeatIndex = (\<lambda>t h. t),
     bh_new = True, bh_begin_ok = True, lux_src = (\<lambda>k. Fin 120), lux_calls = 0,
     adc_src = (\<lambda>k. if even k then 1000 else if k < 64 then 1150 else 1153), adc_calls = 0,
     millis_src = (\<lambda>k. 50 * of_nat k), millis_calls = 0, trace = []\<rparr>"

text \<open>A quiet room: the signal swings by 80 only.\<close>

definition w_quiet :: world where
  "w_quiet = w_base\<lparr>adc_src := (\<lambda>k. if even k then 1000 else 1080)\<rparr>"

text \<open>A microphone driver in the middle of a reporting interval.\<close>

definition m_loud :: MicrophoneSensor where
  "m_loud = \<lparr>peakLevel = 900, lastLevel = 50, runningSum = 4000, sampleCount = 7\<rparr>"

text \<open>The first temperature reading fails, the later ones work.\<close>

definition w_retry :: world where
  "w_retry = w_base\<lparr>temp_src := (\<lambda>k. if k = 0 then NaN else Fin 22.5)\<rparr>"

text \<open>
  The sensor answers its first reading with 200 degrees at 150 percent, numbers outside
  the valid ranges, and fails from then on.
\<close>

definition w_hot :: world where
  "w_hot = w_base\<lparr>temp_src := (\<lambda>k. if k = 0 then Fin 200 else NaN), hum_src := (\<lambda>k. Fin 150)\<rparr>"

text \<open>The light device answers every reading with its error value.\<close>

definition w_lux_err :: world where
  "w_lux_err = w_base\<lparr>lux_src := (\<lambda>k. Fin (- 1))\<rparr>"

text \<open>Drivers that are initialised and hold a last good value.\<close>

definition d_ready :: DHTSensor where
  "d_ready = \<lparr>dht_ptr = True, lastTemp = Fin 21, lastHumidity = Fin 45, dht_initialized = True\<rparr>"

definition l_ready :: LightSensor where
  "l_ready = \<lparr>bh_ptr = True, light_initialized = True, lastLux = Fin 300\<rparr>"

text \<open>The globals after \<^verbatim>\<open>setup()\<close>, with both environmental sensors initialised.\<close>

definition g_boot :: sys where
  "g_boot = \<lparr>micSensor = MicrophoneSensor_new, dhtSensor = d_ready, lightSensor = l_ready,
     lastSensorRead = 0, lastAudioSample = 0,
     sensorData = \<lparr>sd_temperature = Fin 0, sd_humidity = Fin 0, lightLevel = Fin 0,
       audioLevel = 0, audioPeak = 0, sd_isValid = False\<rparr>\<rparr>"

text \<open>A clock that advances by a second from one pass to the next.\<close>

definition w_slow :: world where
  "w_slow = w_base\<lparr>millis_src := (\<lambda>k. 1000 * of_nat k)\<rparr>"

text \<open>
  A pass at time 2000 with a failing light device, entered with 300 lux in the snapshot.
\<close>

definition w_tick :: world where
  "w_tick = w_lux_err\<lparr>millis_src := (\<lambda>k. 2000)\<rparr>"

definition g_run :: sys where
  "g_run = g_boot\<lparr>sensorData := (sensorData g_boot)\<lparr>lightLevel := Fin 300\<rparr>\<rparr>"

section \<open>Arithmetic and floats\<close>

lemmas flt_defs = flt_gt_def flt_le_def flt_ge_def

lemmas dev_defs = emit_def delay_def delayMicroseconds_def dev_dht_begin_def readTemperature_def
  readHumidity_def dev_bh_begin_def readLightLevel_def analogRead_def millis_def

lemma wrap32_id: "- 2147483648 \<le> x \<Longrightarrow> x \<le> 2147483647 \<Longrightarrow> wrap32 x = x"
  by (simp add: wrap32_def)

lemma wrap32_range: "- 2147483648 \<le> wrap32 x \<and> wrap32 x \<le> 2147483647"
proof -
  have "0 \<le> (x + 2147483648) mod 4294967296" "(x + 2147483648) mod 4294967296 < 4294967296"
    by simp_all
  then show ?thesis unfolding wrap32_def by linarith
qed

lemma cdiv_nonneg: "0 \<le> a \<Longrightarrow> 0 < b \<Longrightarrow> cdiv a b = a div b"
  by (cases "a = 0") (simp_all add: cdiv_def)

section \<open>The microphone\<close>

lemma loop_step:
  "i < AUDIO_SAMPLES \<Longrightarrow>
   sampleAudio_loop i mn mx sm w =
     sampleAudio_loop (Suc i) (min (adc_src w (adc_calls w)) mn) (max (adc_src w (adc_calls w)) mx)
       (wrap32 (sm + adc_src w (adc_calls w)))
       (delayMicroseconds 100 (snd (analogRead w)))"
  by (subst sampleAudio_loop.simps) (auto simp: analogRead_def Let_def min_def max_def)

lemma loop_stop: "\<not> i < AUDIO_SAMPLES \<Longrightarrow> sampleAudio_loop i mn mx sm w = (mn, mx, sm, w)"
  by (subst sampleAudio_loop.simps) simp

lemma upcoming_0: "upcoming w 0 = {}"
  by (simp add: upcoming_def)

lemma step_world:
  "adc_src (delayMicroseconds 100 (snd (analogRead w))) = adc_src w"
  "adc_calls (delayMicroseconds 100 (snd (analogRead w))) = Suc (adc_calls w)"
  by (simp_all add: delayMicroseconds_def analogRead_def emit_def)

lemma upcoming_Suc:
  "upcoming w (Suc k) =
     insert (adc_src w (adc_calls w)) (upcoming (delayMicroseconds 100 (snd (analogRead w))) k)"
proof -
  have "f ` {0..<Suc k} = insert (f 0) ((\<lambda>j. f (Suc j)) ` {0..<k})" for f :: "nat \<Rightarrow> int"
    by (simp only: atLeast0_lessThan_Suc_eq_insert_0 image_insert image_image)
  from this [of "\<lambda>j. adc_src w (adc_calls w + j)"] show ?thesis
    by (simp add: upcoming_def step_world)
qed

lemma loop_result:
  "AUDIO_SAMPLES - i = k \<Longrightarrow>
   sampleAudio_loop i mn mx sm w = (mn2, mx2, sm2, w2) \<Longrightarrow>
   mn2 = Min (insert mn (upcoming w k)) \<and> mx2 = Max (insert mx (upcoming w k)) \<and>
   adc_calls w2 = adc_calls w + k \<and> adc_src w2 = adc_src w"
proof (induction k arbitrary: i mn mx sm w)
  case 0
  then show ?case by (simp add: loop_stop upcoming_0)
next
  case (Suc k)
  let ?x = "adc_src w (adc_calls w)"
  let ?w = "delayMicroseconds 100 (snd (analogRead w))"
  from Suc.prems have lt: "i < AUDIO_SAMPLES" and k: "AUDIO_SAMPLES - Suc i = k" by simp_all
  from Suc.prems(2) have
    "sampleAudio_loop (Suc i) (min ?x mn) (max ?x mx) (wrap32 (sm + ?x)) ?w = (mn2, mx2, sm2, w2)"
    by (simp add: loop_step [OF lt])
  from Suc.IH [OF k this] have
    a: "mn2 = Min (insert (min ?x mn) (upcoming ?w k))" and
    b: "mx2 = Max (insert (max ?x mx) (upcoming ?w k))" and
    c: "adc_calls w2 = adc_calls ?w + k" and d: "adc_src w2 = adc_src ?w"
    by simp_all
  have fin: "finite (upcoming ?w k)" by (simp add: upcoming_def)
  have "Min (insert mn (upcoming w (Suc k))) = Min (insert (min ?x mn) (upcoming ?w k))"
    using fin by (cases "upcoming ?w k = {}") (simp_all add: upcoming_Suc insert_commute min.assoc min.commute)
  moreover have "Max (insert mx (upcoming w (Suc k))) = Max (insert (max ?x mx) (upcoming ?w k))"
    using fin by (cases "upcoming ?w k = {}") (simp_all add: upcoming_Suc insert_commute max.assoc max.commute)
  ultimately show ?case using a b c d by (simp add: step_world)
qed

lemma sampleAudio_result:
  "sampleAudio w = (mn, mx, av, w1) \<Longrightarrow>
   mn = Min (insert 4095 (set (burst w))) \<and> mx = Max (insert 0 (set (burst w))) \<and>
   adc_calls w1 = adc_calls w + AUDIO_SAMPLES \<and> adc_src w1 = adc_src w"
proof -
  assume a: "sampleAudio w = (mn, mx, av, w1)"
  obtain sm where "sampleAudio_loop 0 4095 0 0 w = (mn, mx, sm, w1)"
    using a by (auto simp: sampleAudio_def split: prod.splits)
  from loop_result [OF _ this, of AUDIO_SAMPLES] show ?thesis
    by (simp add: burst_def upcoming_def)
qed

lemma loop_world:
  "AUDIO_SAMPLES - i = k \<Longrightarrow>
   sampleAudio_loop i mn mx sm w = (mn2, mx2, sm2, w2) \<Longrightarrow>
   w2 = w\<lparr>adc_calls := adc_calls w + k,
          trace := trace w @ concat (replicate k [EvAnalogRead, EvDelayMicroseconds 100])\<rparr>"
proof (induction k arbitrary: i mn mx sm w)
  case 0
  then show ?case by (simp add: loop_stop)
next
  case (Suc k)
  let ?x = "adc_src w (adc_calls w)"
  let ?w = "delayMicroseconds 100 (snd (analogRead w))"
  from Suc.prems have lt: "i < AUDIO_SAMPLES" and k: "AUDIO_SAMPLES - Suc i = k" by simp_all
  from Suc.prems(2) have
    "sampleAudio_loop (Suc i) (min ?x mn) (max ?x mx) (wrap32 (sm + ?x)) ?w = (mn2, mx2, sm2, w2)"
    by (simp add: loop_step [OF lt])
  from Suc.IH [OF k this] show ?case
    by (simp add: dev_defs)
qed

lemma Mic_read_world:
  assumes "Mic_read w m = (r, m1, w1)"
  shows "w1 = w\<lparr>adc_calls := adc_calls w + 64,
          trace := trace w @ concat (replicate 64 [EvAnalogRead, EvDelayMicroseconds 100])\<rparr>"
proof -
  obtain mn mx sm where "sampleAudio_loop 0 4095 0 0 w = (mn, mx, sm, w1)"
    using assms by (auto simp: Mic_read_def sampleAudio_def Let_def split: prod.splits)
  from loop_world [OF _ this, of AUDIO_SAMPLES] show ?thesis
    by (simp add: AUDIO_SAMPLES_def)
qed

lemma Mic_read_level_nonneg: "0 \<le> level (fst (Mic_read w m))"
proof -
  have "100 \<le> wrap32 x \<Longrightarrow> 0 \<le> wrap32 (wrap32 x - 100)" for x
    using wrap32_range [of x] by (simp add: wrap32_id)
  then show ?thesis
    by (auto simp: Mic_read_def Let_def AUDIO_NOISE_FLOOR_def split: prod.splits)
qed

lemma Mic_read_state:
  "Mic_read w m = (r, m1, w1) \<Longrightarrow>
   m1 = \<lparr>peakLevel = max (peakLevel m) (level r), lastLevel = level r,
         runningSum = wrap32 (runningSum m + level r),
         sampleCount = wrap32 (sampleCount m + 1)\<rparr> \<and>
   peak r = peakLevel m1 \<and>
   average r = (if sampleCount m1 > 0 then cdiv (runningSum m1) (sampleCount m1) else 0) \<and>
   audio_isValid r"
  by (auto simp: Mic_read_def Let_def max_def split: prod.splits)

lemma Mic_read_level:
  assumes "\<forall>x\<in>set (burst w). 0 \<le> x \<and> x \<le> 4095"
    and "Mic_read w m = (r, m1, w1)"
  shows "level r = (if Max (set (burst w)) - Min (set (burst w)) < 100 then 0
                    else Max (set (burst w)) - Min (set (burst w)) - 100)"
    and "adc_calls w1 = adc_calls w + 64"
proof -
  obtain mn mx av w2 where s: "sampleAudio w = (mn, mx, av, w2)"
    by (metis prod_cases4)
  note r = sampleAudio_result [OF s]
  have ne: "set (burst w) \<noteq> {}" by (simp add: burst_def AUDIO_SAMPLES_def)
  have fin: "finite (set (burst w))" by simp
  have mn: "mn = Min (set (burst w))"
    using r assms(1) ne fin by (simp add: min_absorb2)
  have mx: "mx = Max (set (burst w))"
    using r assms(1) ne fin by (simp add: max_absorb2)
  have lo: "0 \<le> mn" using assms(1) ne fin unfolding mn by simp
  have hi: "mx \<le> 4095" using assms(1) ne fin unfolding mx by simp
  have le: "mn \<le> mx" using ne fin unfolding mn mx by simp
  have p: "wrap32 (mx - mn) = mx - mn" using lo hi le by (simp add: wrap32_id)
  have q: "100 \<le> mx - mn \<Longrightarrow> wrap32 (mx - mn - 100) = mx - mn - 100"
    using lo hi le by (simp add: wrap32_id)
  show "level r = (if Max (set (burst w)) - Min (set (burst w)) < 100 then 0
                    else Max (set (burst w)) - Min (set (burst w)) - 100)"
    using assms(2) s p q unfolding mn [symmetric] mx [symmetric]
    by (auto simp: Mic_read_def Let_def AUDIO_NOISE_FLOOR_def)
  show "adc_calls w1 = adc_calls w + 64"
    using assms(2) s r by (auto simp: Mic_read_def Let_def AUDIO_SAMPLES_def)
qed


lemma Mic_reads_Suc:
  "Mic_reads (Suc n) w m = (rs, m', w') \<Longrightarrow>
   \<exists>r m1 w1 rs'. Mic_read w m = (r, m1, w1) \<and> Mic_reads n w1 m1 = (rs', m', w') \<and> rs = r # rs'"
  by (auto simp: Let_def split: prod.splits)

lemma Mic_reads_levels_nonneg:
  "Mic_reads n w m = (rs, m', w') \<Longrightarrow> \<forall>r\<in>set rs. 0 \<le> level r"
proof (induction n arbitrary: w m rs)
  case 0
  then show ?case by simp
next
  case (Suc n)
  from Mic_reads_Suc [OF Suc.prems] obtain r m1 w1 rs' where
    a: "Mic_read w m = (r, m1, w1)" and b: "Mic_reads n w1 m1 = (rs', m', w')" and c: "rs = r # rs'"
    by blast
  have "0 \<le> level r" using Mic_read_level_nonneg [of w m] a by simp
  with Suc.IH [OF b] c show ?case by simp
qed

lemma Mic_reads_length: "Mic_reads n w m = (rs, m', w') \<Longrightarrow> length rs = n"
proof (induction n arbitrary: w m rs)
  case 0
  then show ?case by simp
next
  case (Suc n)
  from Mic_reads_Suc [OF Suc.prems] obtain r m1 w1 rs' where
    b: "Mic_reads n w1 m1 = (rs', m', w')" and c: "rs = r # rs'"
    by blast
  with Suc.IH [OF b] show ?case by simp
qed

lemma Mic_reads_inv:
  "Mic_reads n w m = (rs, m', w') \<Longrightarrow> 0 \<le> runningSum m \<Longrightarrow> 0 \<le> sampleCount m \<Longrightarrow>
   runningSum m + sum_list (map level rs) \<le> 2147483647 \<Longrightarrow>
   sampleCount m + int n \<le> 2147483647 \<Longrightarrow>
   peakLevel m' = Max (insert (peakLevel m) (set (map level rs))) \<and>
   runningSum m' = runningSum m + sum_list (map level rs) \<and>
   sampleCount m' = sampleCount m + int n \<and>
   (1 \<le> n \<longrightarrow> peak (last rs) = peakLevel m' \<and>
      average (last rs) = cdiv (runningSum m') (sampleCount m') \<and> audio_isValid (last rs))"
proof (induction n arbitrary: w m rs)
  case 0
  then show ?case by simp
next
  case (Suc n)
  from Mic_reads_Suc [OF Suc.prems(1)] obtain r m1 w1 rs' where
    a: "Mic_read w m = (r, m1, w1)" and b: "Mic_reads n w1 m1 = (rs', m', w')" and c: "rs = r # rs'"
    by blast
  have r0: "0 \<le> level r" using Mic_read_level_nonneg [of w m] a by simp
  have "\<forall>x\<in>set rs'. 0 \<le> level x" by (rule Mic_reads_levels_nonneg [OF b])
  then have s0: "0 \<le> sum_list (map level rs')" by (intro sum_list_nonneg) auto
  note st = Mic_read_state [OF a]
  have rs1: "runningSum m1 = runningSum m + level r"
    using st Suc.prems r0 s0 c by (simp add: wrap32_id)
  have sc1: "sampleCount m1 = sampleCount m + 1"
    using st Suc.prems by (simp add: wrap32_id)
  have pk1: "peakLevel m1 = max (peakLevel m) (level r)"
    using st by simp
  have ih: "peakLevel m' = Max (insert (peakLevel m1) (set (map level rs'))) \<and>
    runningSum m' = runningSum m1 + sum_list (map level rs') \<and>
    sampleCount m' = sampleCount m1 + int n \<and>
    (1 \<le> n \<longrightarrow> peak (last rs') = peakLevel m' \<and>
      average (last rs') = cdiv (runningSum m') (sampleCount m') \<and> audio_isValid (last rs'))"
    using Suc.prems r0 c by (intro Suc.IH [OF b]) (simp_all add: rs1 sc1)
  have pk: "peakLevel m' = Max (insert (peakLevel m) (set (map level rs)))"
  proof (cases "rs' = []")
    case True
    then show ?thesis using ih pk1 c by (simp add: max.commute)
  next
    case False
    then show ?thesis using ih pk1 c by (simp add: insert_commute max.assoc max.commute max.left_commute)
  qed
  have lastr: "peak (last rs) = peakLevel m' \<and>
      average (last rs) = cdiv (runningSum m') (sampleCount m') \<and> audio_isValid (last rs)"
  proof (cases n)
    case 0
    then have "rs' = []" "m' = m1" using b by simp_all
    then show ?thesis using st c sc1 Suc.prems(3) by simp
  next
    case (Suc k)
    then have "rs' \<noteq> []" using Mic_reads_length [OF b] by auto
    then show ?thesis using ih c Suc by simp
  qed
  show ?case using pk lastr ih by (simp add: rs1 sc1 c)
qed

lemma burst_set: "set (burst w) = (\<lambda>j. adc_src w (adc_calls w + j)) ` {0..<64}"
  by (simp add: burst_def AUDIO_SAMPLES_def)

lemma burst_Max: "hi \<in> set (burst w) \<Longrightarrow> \<forall>x\<in>set (burst w). x \<le> hi \<Longrightarrow> Max (set (burst w)) = hi"
  by (intro Max_eqI) auto

lemma burst_Min: "lo \<in> set (burst w) \<Longrightarrow> \<forall>x\<in>set (burst w). lo \<le> x \<Longrightarrow> Min (set (burst w)) = lo"
  by (intro Min_eqI) auto

lemma square_burst:
  assumes "adc_calls w = 64 * c" and "\<forall>j<64. adc_src w (64 * c + j) = (if even j then lo else hi)"
    and "lo \<le> hi"
  shows "Max (set (burst w)) = hi" and "Min (set (burst w)) = lo"
    and "\<forall>x\<in>set (burst w). lo \<le> x \<and> x \<le> hi"
proof -
  have s: "set (burst w) = (\<lambda>j. if even j then lo else hi) ` {0..<64::nat}"
    unfolding burst_set using assms(1,2) by (intro image_cong) auto
  have "hi \<in> set (burst w)" unfolding s by (rule image_eqI [of _ _ 1]) simp_all
  moreover have "lo \<in> set (burst w)" unfolding s by (rule image_eqI [of _ _ 0]) simp_all
  moreover show b: "\<forall>x\<in>set (burst w). lo \<le> x \<and> x \<le> hi" unfolding s using assms(3) by auto
  ultimately show "Max (set (burst w)) = hi" and "Min (set (burst w)) = lo"
    by (auto intro: burst_Max burst_Min)
qed

lemma w_base_burst:
  "Max (set (burst w_base)) = 1150" "Min (set (burst w_base)) = 1000"
  "\<forall>x\<in>set (burst w_base). 1000 \<le> x \<and> x \<le> 1150"
  using square_burst [of w_base 0 1000 1150] by (simp_all add: w_base_def)

lemma w_quiet_burst:
  "Max (set (burst w_quiet)) = 1080" "Min (set (burst w_quiet)) = 1000"
  "\<forall>x\<in>set (burst w_quiet). 1000 \<le> x \<and> x \<le> 1080"
  using square_burst [of w_quiet 0 1000 1080] by (simp_all add: w_quiet_def w_base_def)

text \<open>
  C4. \<^verbatim>\<open>read()\<close> takes exactly 64 samples. The level it returns is the peak-to-peak
  amplitude of the burst with the noise floor of 100 removed: 0 below 100, the amplitude
  less 100 otherwise. The extremes are taken from 4095 downwards and from 0 upwards, so
  the amplitude is the largest sample less the smallest one whenever the samples are in
  the range 0..4095 of the 12-bit converter.
\<close>

theorem audio_read_level:
  assumes "Mic_read w m = (r, m1, w1)"
  shows "adc_calls w1 = adc_calls w + 64 \<and> adc_src w1 = adc_src w \<and>
     trace w1 = trace w @ concat (replicate 64 [EvAnalogRead, EvDelayMicroseconds 100]) \<and>
     level r = (let p = wrap32 (Max (insert 0 (set (burst w))) - Min (insert 4095 (set (burst w))))
                in if p < 100 then 0 else p - 100) \<and>
     ((\<forall>x\<in>set (burst w). 0 \<le> x \<and> x \<le> 4095) \<longrightarrow>
        level r = (let p = Max (set (burst w)) - Min (set (burst w))
                   in if p < 100 then 0 else p - 100))"
proof -
  obtain mn mx av w2 where s: "sampleAudio w = (mn, mx, av, w2)"
    by (metis prod_cases4)
  note sr = sampleAudio_result [OF s]
  have sub: "100 \<le> wrap32 x \<Longrightarrow> wrap32 (wrap32 x - 100) = wrap32 x - 100" for x
    using wrap32_range [of x] by (simp add: wrap32_id)
  have "level r = (let p = wrap32 (mx - mn) in if p < 100 then 0 else p - 100)"
    using assms s sub [of "mx - mn"] by (auto simp: Mic_read_def Let_def AUDIO_NOISE_FLOOR_def)
  then have a: "level r = (let p = wrap32 (Max (insert 0 (set (burst w))) - Min (insert 4095 (set (burst w))))
                in if p < 100 then 0 else p - 100)"
    using sr by simp
  have b: "adc_calls w1 = adc_calls w + 64 \<and> adc_src w1 = adc_src w \<and>
      trace w1 = trace w @ concat (replicate 64 [EvAnalogRead, EvDelayMicroseconds 100])"
    unfolding Mic_read_world [OF assms] by simp
  have c: "(\<forall>x\<in>set (burst w). 0 \<le> x \<and> x \<le> 4095) \<longrightarrow>
        level r = (let p = Max (set (burst w)) - Min (set (burst w))
                   in if p < 100 then 0 else p - 100)"
    using Mic_read_level(1) [OF _ assms] by (simp add: Let_def)
  show ?thesis using a b c by blast
qed

theorem audio_read_level_witness:
  "level (fst (Mic_read w_base MicrophoneSensor_new)) = 50 \<and>
   level (fst (Mic_read w_quiet MicrophoneSensor_new)) = 0 \<and>
   adc_calls (snd (snd (Mic_read w_base MicrophoneSensor_new))) = 64"
proof -
  obtain r m1 w1 where a: "Mic_read w_base MicrophoneSensor_new = (r, m1, w1)"
    by (metis prod_cases3)
  obtain r' m1' w1' where b: "Mic_read w_quiet MicrophoneSensor_new = (r', m1', w1')"
    by (metis prod_cases3)
  have "\<forall>x\<in>set (burst w_base). 0 \<le> x \<and> x \<le> 4095"
    using w_base_burst(3) by force
  with audio_read_level [OF a]
  have "level r = (let p = Max (set (burst w_base)) - Min (set (burst w_base))
                   in if p < 100 then 0 else p - 100)"
    by blast
  then have "level r = 50"
    by (simp add: w_base_burst)
  moreover have "adc_calls w1 = 64"
    using audio_read_level [OF a] by (simp add: w_base_def)
  moreover have "\<forall>x\<in>set (burst w_quiet). 0 \<le> x \<and> x \<le> 4095"
    using w_quiet_burst(3) by force
  with audio_read_level [OF b]
  have "level r' = (let p = Max (set (burst w_quiet)) - Min (set (burst w_quiet))
                   in if p < 100 then 0 else p - 100)"
    by blast
  then have "level r' = 0"
    by (simp add: w_quiet_burst)
  ultimately show ?thesis using a b by simp
qed

text \<open>
  C3. After \<open>n \<ge> 1\<close> calls of \<^verbatim>\<open>read()\<close> since the last reset, the reading returned
  last has the largest of the \<open>n\<close> levels as its peak and the sum of the levels divided
  by \<open>n\<close>, rounded down, as its average, and it is valid. The sum and the count are
  32-bit, so the statement is for sums up to \<open>LONG_MAX\<close> and counts up to \<open>INT_MAX\<close>.
\<close>

theorem audio_peak_average_n_reads:
  assumes "Mic_reads n w (resetPeak m) = (rs, m', w')"
    and "1 \<le> n"
    and "sum_list (map level rs) \<le> LONG_MAX"
    and "int n \<le> INT_MAX"
  shows "length rs = n \<and>
         peak (last rs) = Max (set (map level rs)) \<and>
         average (last rs) = sum_list (map level rs) div int n \<and>
         audio_isValid (last rs)"
proof -
  have len: "length rs = n" by (rule Mic_reads_length [OF assms(1)])
  then have ne: "rs \<noteq> []" using assms(2) by auto
  have nn: "\<forall>r\<in>set rs. 0 \<le> level r" by (rule Mic_reads_levels_nonneg [OF assms(1)])
  then have s0: "0 \<le> sum_list (map level rs)" by (intro sum_list_nonneg) auto
  have inv: "peakLevel m' = Max (insert 0 (set (map level rs))) \<and>
      runningSum m' = sum_list (map level rs) \<and> sampleCount m' = int n \<and>
      peak (last rs) = peakLevel m' \<and>
      average (last rs) = cdiv (runningSum m') (sampleCount m') \<and> audio_isValid (last rs)"
    using Mic_reads_inv [OF assms(1)] assms(2-4)
    by (simp add: resetPeak_def LONG_MAX_def INT_MAX_def)
  have "Max (insert 0 (set (map level rs))) = Max (set (map level rs))"
  proof -
    have "0 \<le> Max (level ` set rs)"
      using nn ne by (cases rs) (auto simp: Max_ge_iff)
    then show ?thesis using ne by (simp add: max_absorb2)
  qed
  moreover have "cdiv (sum_list (map level rs)) (int n) = sum_list (map level rs) div int n"
    using s0 assms(2) by (simp add: cdiv_nonneg)
  ultimately show ?thesis using inv len by simp
qed


theorem audio_peak_average_n_reads_witness:
  "map level (fst (Mic_reads 2 w_base (resetPeak MicrophoneSensor_new))) = [50, 53] \<and>
   peak (last (fst (Mic_reads 2 w_base (resetPeak MicrophoneSensor_new)))) = 53 \<and>
   average (last (fst (Mic_reads 2 w_base (resetPeak MicrophoneSensor_new)))) = 51 \<and>
   audio_isValid (last (fst (Mic_reads 2 w_base (resetPeak MicrophoneSensor_new))))"
proof -
  let ?m = "resetPeak MicrophoneSensor_new"
  obtain rs m' w' where a: "Mic_reads 2 w_base ?m = (rs, m', w')"
    by (metis prod_cases3)
  then have "Mic_reads (Suc (Suc 0)) w_base ?m = (rs, m', w')"
    by (simp add: numeral_2_eq_2)
  from Mic_reads_Suc [OF this] obtain r1 m1 w1 rs1 where
    r1: "Mic_read w_base ?m = (r1, m1, w1)" and b: "Mic_reads (Suc 0) w1 m1 = (rs1, m', w')"
    and c: "rs = r1 # rs1"
    by blast
  from Mic_reads_Suc [OF b] obtain r2 m2 w2 rs2 where
    r2: "Mic_read w1 m1 = (r2, m2, w2)" and d: "Mic_reads 0 w2 m2 = (rs2, m', w')"
    and e: "rs1 = r2 # rs2"
    by blast
  have rs: "rs = [r1, r2]" using c d e by simp
  have "\<forall>x\<in>set (burst w_base). 0 \<le> x \<and> x \<le> 4095"
    using w_base_burst(3) by force
  from Mic_read_level [OF this r1] have l1: "level r1 = 50" and c1: "adc_calls w1 = 64"
    by (simp_all add: w_base_burst) (simp add: w_base_def)
  obtain mn mx av where "sampleAudio w_base = (mn, mx, av, w1)"
    using r1 by (auto simp: Mic_read_def Let_def split: prod.splits)
  from sampleAudio_result [OF this] have s1: "adc_src w1 = adc_src w_base" by simp
  have sq: "Max (set (burst w1)) = 1153" "Min (set (burst w1)) = 1000"
    "\<forall>x\<in>set (burst w1). 1000 \<le> x \<and> x \<le> 1153"
    using square_burst [of w1 1 1000 1153] c1 s1 by (simp_all add: w_base_def)
  then have "\<forall>x\<in>set (burst w1). 0 \<le> x \<and> x \<le> 4095"
    by force
  from Mic_read_level(1) [OF this r2] have l2: "level r2 = 53"
    by (simp add: sq)
  have lv: "map level rs = [50, 53]" using rs l1 l2 by simp
  have "length rs = 2 \<and> peak (last rs) = Max (set (map level rs)) \<and>
      average (last rs) = sum_list (map level rs) div int 2 \<and> audio_isValid (last rs)"
    by (rule audio_peak_average_n_reads [OF a]) (simp_all add: lv LONG_MAX_def INT_MAX_def)
  then show ?thesis using a by (simp add: lv)
qed

text \<open>
  C9. \<^verbatim>\<open>resetPeak()\<close> zeroes the peak, the running sum and the sample count and keeps
  the last level, so \<^verbatim>\<open>isAboveThreshold\<close> answers as before, and the first reading
  after a reset has its own level as peak.
\<close>

theorem resetPeak_frame:
  "resetPeak m = \<lparr>peakLevel = 0, lastLevel = lastLevel m, runningSum = 0, sampleCount = 0\<rparr> \<and>
   isAboveThreshold (resetPeak m) t = isAboveThreshold m t \<and>
   peak (fst (Mic_read w (resetPeak m))) = level (fst (Mic_read w (resetPeak m)))"
proof -
  obtain r m1 w1 where a: "Mic_read w (resetPeak m) = (r, m1, w1)" by (metis prod_cases3)
  have "0 \<le> level r" using Mic_read_level_nonneg [of w "resetPeak m"] a by simp
  then have "peak r = level r" using Mic_read_state [OF a] by (simp add: resetPeak_def)
  then show ?thesis using a by (simp add: resetPeak_def isAboveThreshold_def)
qed

theorem resetPeak_frame_witness:
  "resetPeak m_loud = \<lparr>peakLevel = 0, lastLevel = 50, runningSum = 0, sampleCount = 0\<rparr> \<and>
   isAboveThreshold m_loud 40 \<and> isAboveThreshold (resetPeak m_loud) 40 \<and>
   peak (fst (Mic_read w_base (resetPeak m_loud))) =
   level (fst (Mic_read w_base (resetPeak m_loud)))"
proof -
  note t = resetPeak_frame [of m_loud 40 w_base]
  have a: "lastLevel m_loud = 50" "isAboveThreshold m_loud 40"
    by (simp_all add: m_loud_def isAboveThreshold_def)
  from t have "resetPeak m_loud =
      \<lparr>peakLevel = 0, lastLevel = lastLevel m_loud, runningSum = 0, sampleCount = 0\<rparr>"
    by blast
  moreover from t have "isAboveThreshold (resetPeak m_loud) 40 = isAboveThreshold m_loud 40"
    by blast
  moreover from t have "peak (fst (Mic_read w_base (resetPeak m_loud))) =
      level (fst (Mic_read w_base (resetPeak m_loud)))"
    by blast
  ultimately show ?thesis using a by (simp only: simp_thms)
qed

section \<open>Validation and classification\<close>

text \<open>
  C6. \<^verbatim>\<open>validateReading\<close> accepts a pair exactly when both values are numbers, the
  temperature is between -40 and 80 and the humidity between 0 and 100, the bounds
  included; NaN, an infinity or a value outside its range is rejected.
\<close>

theorem validateReading_iff:
  "validateReading t h =
     (\<exists>x y. t = Fin x \<and> h = Fin y \<and> - 40 \<le> x \<and> x \<le> 80 \<and> 0 \<le> y \<and> y \<le> 100)"
  by (cases t; cases h)
     (auto simp: validateReading_def flt_gt_def TEMP_MIN_def TEMP_MAX_def
        HUMIDITY_MIN_def HUMIDITY_MAX_def)

theorem validateReading_iff_witness:
  "validateReading (Fin (- 40)) (Fin 0) \<and> validateReading (Fin 80) (Fin 100) \<and>
   \<not> validateReading (Fin 81) (Fin 50) \<and> \<not> validateReading (Fin 20) (Fin (- 1)) \<and>
   \<not> validateReading NaN (Fin 50) \<and> \<not> validateReading (Fin 20) NaN \<and>
   \<not> validateReading PosInf (Fin 50)"
  using validateReading_iff [of "Fin (- 40)" "Fin 0"] validateReading_iff [of "Fin 80" "Fin 100"]
    validateReading_iff [of "Fin 81" "Fin 50"] validateReading_iff [of "Fin 20" "Fin (- 1)"]
    validateReading_iff [of NaN "Fin 50"] validateReading_iff [of "Fin 20" NaN]
    validateReading_iff [of PosInf "Fin 50"]
  by simp

text \<open>
  C7. \<^verbatim>\<open>getCondition\<close> classifies by the ascending thresholds 10, 50, 300 and 1000,
  each compared with \<open><\<close>: below 10 is dark, from 10 up to 50 dim, from 50 up to 300
  normal, from 300 up to 1000 bright, and from 1000 on very bright. The classification is
  monotone, and the six boundary values of the specification are classified as it says.
\<close>

theorem getCondition_thresholds:
  "(flt_lt l (Fin 10) \<longrightarrow> getCondition l = CONDITION_DARK) \<and>
   (flt_ge l (Fin 10) \<and> flt_lt l (Fin 50) \<longrightarrow> getCondition l = CONDITION_DIM) \<and>
   (flt_ge l (Fin 50) \<and> flt_lt l (Fin 300) \<longrightarrow> getCondition l = CONDITION_NORMAL) \<and>
   (flt_ge l (Fin 300) \<and> flt_lt l (Fin 1000) \<longrightarrow> getCondition l = CONDITION_BRIGHT) \<and>
   (flt_ge l (Fin 1000) \<longrightarrow> getCondition l = CONDITION_VERY_BRIGHT) \<and>
   (flt_le a b \<longrightarrow> condition_value (getCondition a) \<le> condition_value (getCondition b)) \<and>
   getCondition (Fin 9.99) = CONDITION_DARK \<and> getCondition (Fin 10) = CONDITION_DIM \<and>
   getCondition (Fin 49.99) = CONDITION_DIM \<and> getCondition (Fin 50) = CONDITION_NORMAL \<and>
   getCondition (Fin 999.99) = CONDITION_BRIGHT \<and>
   getCondition (Fin 1000) = CONDITION_VERY_BRIGHT"
proof -
  note defs = getCondition_def flt_defs LIGHT_DARK_def LIGHT_DIM_def LIGHT_NORMAL_def
    LIGHT_BRIGHT_def
  have a: "(flt_lt l (Fin 10) \<longrightarrow> getCondition l = CONDITION_DARK) \<and>
   (flt_ge l (Fin 10) \<and> flt_lt l (Fin 50) \<longrightarrow> getCondition l = CONDITION_DIM) \<and>
   (flt_ge l (Fin 50) \<and> flt_lt l (Fin 300) \<longrightarrow> getCondition l = CONDITION_NORMAL) \<and>
   (flt_ge l (Fin 300) \<and> flt_lt l (Fin 1000) \<longrightarrow> getCondition l = CONDITION_BRIGHT) \<and>
   (flt_ge l (Fin 1000) \<longrightarrow> getCondition l = CONDITION_VERY_BRIGHT)"
    by (cases l) (auto simp: defs)
  have b: "flt_le a b \<longrightarrow> condition_value (getCondition a) \<le> condition_value (getCondition b)"
    by (cases a; cases b) (auto simp: defs)
  have c: "getCondition (Fin 9.99) = CONDITION_DARK \<and> getCondition (Fin 10) = CONDITION_DIM \<and>
   getCondition (Fin 49.99) = CONDITION_DIM \<and> getCondition (Fin 50) = CONDITION_NORMAL \<and>
   getCondition (Fin 999.99) = CONDITION_BRIGHT \<and>
   getCondition (Fin 1000) = CONDITION_VERY_BRIGHT"
    by (simp add: defs)
  show ?thesis using a b c by blast
qed

theorem getCondition_thresholds_witness:
  "getCondition (Fin 5) = CONDITION_DARK \<and> getCondition (Fin 30) = CONDITION_DIM \<and>
   getCondition (Fin 120) = CONDITION_NORMAL \<and> getCondition (Fin 640) = CONDITION_BRIGHT \<and>
   getCondition PosInf = CONDITION_VERY_BRIGHT \<and>
   flt_le (Fin 30) (Fin 640) \<and>
   condition_value (getCondition (Fin 30)) \<le> condition_value (getCondition (Fin 640))"
  using getCondition_thresholds [of "Fin 5" "Fin 30" "Fin 640"]
    getCondition_thresholds [of "Fin 30" "Fin 30" "Fin 640"]
    getCondition_thresholds [of "Fin 120" "Fin 30" "Fin 640"]
    getCondition_thresholds [of "Fin 640" "Fin 30" "Fin 640"]
    getCondition_thresholds [of PosInf "Fin 30" "Fin 640"]
  by (simp add: flt_defs)

section \<open>The environmental sensors\<close>

lemma DHT_begin_ok:
  assumes "dht_new w" "\<not> isnan (temp_src w (temp_calls w))" "\<not> isnan (hum_src w (hum_calls w))"
  shows "DHT_begin w s =
    (True,
     \<lparr>dht_ptr = True, lastTemp = temp_src w (temp_calls w), lastHumidity = hum_src w (hum_calls w),
      dht_initialized = True\<rparr>,
     w\<lparr>temp_calls := temp_calls w + 1, hum_calls := hum_calls w + 1,
       trace := trace w @ [EvDhtBegin, EvDelay 2000, EvReadTemperature, EvReadHumidity]\<rparr>)"
  using assms by (simp add: DHT_begin_def dev_defs Let_def)

lemma DHT_begin_retry:
  assumes "dht_new w" "isnan (temp_src w (temp_calls w)) \<or> isnan (hum_src w (hum_calls w))"
  shows "DHT_begin w s =
    (\<not> isnan (temp_src w (temp_calls w + 1)) \<and> \<not> isnan (hum_src w (hum_calls w + 1)),
     (if \<not> isnan (temp_src w (temp_calls w + 1)) \<and> \<not> isnan (hum_src w (hum_calls w + 1))
      then \<lparr>dht_ptr = True, lastTemp = temp_src w (temp_calls w + 1),
             lastHumidity = hum_src w (hum_calls w + 1), dht_initialized = True\<rparr>
      else \<lparr>dht_ptr = True, lastTemp = lastTemp s, lastHumidity = lastHumidity s,
             dht_initialized = False\<rparr>),
     w\<lparr>temp_calls := temp_calls w + 2, hum_calls := hum_calls w + 2,
       trace := trace w @ [EvDhtBegin, EvDelay 2000, EvReadTemperature, EvReadHumidity,
                           EvDelay 2000, EvReadTemperature, EvReadHumidity]\<rparr>)"
  using assms by (auto simp: DHT_begin_def dev_defs Let_def)

lemma DHT_begin_null: "\<not> dht_new w \<Longrightarrow> DHT_begin w s = (False, s\<lparr>dht_ptr := False\<rparr>, w)"
  by (simp add: DHT_begin_def Let_def)

lemma Light_begin_eq:
  assumes "bh_new w"
  shows "Light_begin w s =
    (bh_begin_ok w,
     \<lparr>bh_ptr = True, light_initialized = bh_begin_ok w,
      lastLux = (if bh_begin_ok w \<and> flt_ge (lux_src w (lux_calls w)) (Fin 0)
                 then lux_src w (lux_calls w) else lastLux s)\<rparr>,
     (if bh_begin_ok w
      then w\<lparr>lux_calls := lux_calls w + 1,
              trace := trace w @ [EvBhBegin, EvDelay 180, EvReadLightLevel]\<rparr>
      else w\<lparr>trace := trace w @ [EvBhBegin]\<rparr>))"
  using assms by (simp add: Light_begin_def dev_defs Let_def)

lemma Light_begin_null: "\<not> bh_new w \<Longrightarrow> Light_begin w s = (False, s\<lparr>bh_ptr := False\<rparr>, w)"
  by (simp add: Light_begin_def Let_def)

lemma DHT_read_off:
  "\<not> (dht_initialized s \<and> dht_ptr s) \<Longrightarrow>
   DHT_read w s =
     (\<lparr>temperature = Fin 0, humidity = Fin 0, heatIndex = Fin 0, dht_isValid = False\<rparr>, s, w)"
  by (auto simp: DHT_read_def)

lemma DHT_read_on:
  "dht_initialized s \<Longrightarrow> dht_ptr s \<Longrightarrow>
   DHT_read w s =
     (if validateReading (temp_src w (temp_calls w)) (hum_src w (hum_calls w))
      then (\<lparr>temperature = temp_src w (temp_calls w), humidity = hum_src w (hum_calls w),
             heatIndex = computeHeatIndex w (temp_src w (temp_calls w)) (hum_src w (hum_calls w)),
             dht_isValid = True\<rparr>,
            s\<lparr>lastTemp := temp_src w (temp_calls w), lastHumidity := hum_src w (hum_calls w)\<rparr>,
            w\<lparr>temp_calls := temp_calls w + 1, hum_calls := hum_calls w + 1,
              trace := trace w @ [EvReadTemperature, EvReadHumidity]\<rparr>)
      else (\<lparr>temperature = lastTemp s, humidity = lastHumidity s,
             heatIndex = computeHeatIndex w (lastTemp s) (lastHumidity s), dht_isValid = False\<rparr>,
            s,
            w\<lparr>temp_calls := temp_calls w + 1, hum_calls := hum_calls w + 1,
              trace := trace w @ [EvReadTemperature, EvReadHumidity]\<rparr>))"
  by (simp add: DHT_read_def dev_defs Let_def)

lemma Light_read_off:
  "\<not> (light_initialized s \<and> bh_ptr s) \<Longrightarrow>
   Light_read w s = (\<lparr>lux = Fin 0, condition = CONDITION_DARK, light_isValid = False\<rparr>, s, w)"
  by (auto simp: Light_read_def)

lemma Light_read_on:
  "light_initialized s \<Longrightarrow> bh_ptr s \<Longrightarrow>
   Light_read w s =
     (if flt_ge (lux_src w (lux_calls w)) (Fin 0)
      then (\<lparr>lux = lux_src w (lux_calls w), condition = getCondition (lux_src w (lux_calls w)),
             light_isValid = True\<rparr>,
            s\<lparr>lastLux := lux_src w (lux_calls w)\<rparr>,
            w\<lparr>lux_calls := lux_calls w + 1, trace := trace w @ [EvReadLightLevel]\<rparr>)
      else (\<lparr>lux = lastLux s, condition = getCondition (lastLux s), light_isValid = False\<rparr>,
            s,
            w\<lparr>lux_calls := lux_calls w + 1, trace := trace w @ [EvReadLightLevel]\<rparr>))"
  by (simp add: Light_read_def dev_defs Let_def)

lemma getLux_off:
  "\<not> (light_initialized s \<and> bh_ptr s) \<Longrightarrow> getLux w s = (Fin 0, s, w)"
  by (auto simp: getLux_def)

lemma getLux_on:
  "light_initialized s \<Longrightarrow> bh_ptr s \<Longrightarrow>
   getLux w s =
     (if flt_ge (lux_src w (lux_calls w)) (Fin 0)
      then (lux_src w (lux_calls w), s\<lparr>lastLux := lux_src w (lux_calls w)\<rparr>,
            w\<lparr>lux_calls := lux_calls w + 1, trace := trace w @ [EvReadLightLevel]\<rparr>)
      else (lastLux s, s,
            w\<lparr>lux_calls := lux_calls w + 1, trace := trace w @ [EvReadLightLevel]\<rparr>))"
  by (simp add: getLux_def dev_defs Let_def)


text \<open>
  C1, as the code has it. \<^verbatim>\<open>DHTSensor::begin()\<close>, once the device object exists, waits
  2000 ms, reads temperature and humidity once, and exactly when one of them is NaN waits
  2000 ms more and reads both once more; the sensor ends initialised if and only if the
  reading taken last has no NaN. \<^verbatim>\<open>LightSensor::begin()\<close> is different: its flag is the
  answer of the device's own start-up call; when that succeeds it waits 180 ms and takes
  one reading, which it keeps as the last lux value if it is not negative, and it neither
  retries nor lets the reading decide the flag.
\<close>

theorem begin_initialized:
  "(dht_new w \<longrightarrow>
      (let t1 = temp_src w (temp_calls w); h1 = hum_src w (hum_calls w);
           t2 = temp_src w (temp_calls w + 1); h2 = hum_src w (hum_calls w + 1);
           first_ok = (\<not> isnan t1 \<and> \<not> isnan h1);
           retry_ok = (\<not> isnan t2 \<and> \<not> isnan h2);
           (ok, s', w') = DHT_begin w s
       in trace w' = trace w @ [EvDhtBegin, EvDelay 2000, EvReadTemperature, EvReadHumidity]
                     @ (if first_ok then [] else [EvDelay 2000, EvReadTemperature, EvReadHumidity]) \<and>
          dht_initialized s' = (if first_ok then True else retry_ok) \<and>
          ok = dht_initialized s' \<and>
          lastTemp s' = (if first_ok then t1 else if retry_ok then t2 else lastTemp s) \<and>
          lastHumidity s' = (if first_ok then h1 else if retry_ok then h2 else lastHumidity s))) \<and>
   (bh_new w \<longrightarrow>
      (let l1 = lux_src w (lux_calls w);
           (ok, c', w') = Light_begin w c
       in trace w' = trace w @ (if bh_begin_ok w then [EvBhBegin, EvDelay 180, EvReadLightLevel]
                                else [EvBhBegin]) \<and>
          light_initialized c' = bh_begin_ok w \<and>
          ok = bh_begin_ok w \<and>
          lastLux c' = (if bh_begin_ok w \<and> flt_ge l1 (Fin 0) then l1 else lastLux c)))"
proof -
  have a: "dht_new w \<longrightarrow>
      (let t1 = temp_src w (temp_calls w); h1 = hum_src w (hum_calls w);
           t2 = temp_src w (temp_calls w + 1); h2 = hum_src w (hum_calls w + 1);
           first_ok = (\<not> isnan t1 \<and> \<not> isnan h1);
           retry_ok = (\<not> isnan t2 \<and> \<not> isnan h2);
           (ok, s', w') = DHT_begin w s
       in trace w' = trace w @ [EvDhtBegin, EvDelay 2000, EvReadTemperature, EvReadHumidity]
                     @ (if first_ok then [] else [EvDelay 2000, EvReadTemperature, EvReadHumidity]) \<and>
          dht_initialized s' = (if first_ok then True else retry_ok) \<and>
          ok = dht_initialized s' \<and>
          lastTemp s' = (if first_ok then t1 else if retry_ok then t2 else lastTemp s) \<and>
          lastHumidity s' = (if first_ok then h1 else if retry_ok then h2 else lastHumidity s))"
  proof (intro impI)
    assume dn: "dht_new w"
    consider (ok) "\<not> isnan (temp_src w (temp_calls w))" "\<not> isnan (hum_src w (hum_calls w))"
      | (t) "isnan (temp_src w (temp_calls w))" | (h) "isnan (hum_src w (hum_calls w))"
      by blast
    then show "let t1 = temp_src w (temp_calls w); h1 = hum_src w (hum_calls w);
           t2 = temp_src w (temp_calls w + 1); h2 = hum_src w (hum_calls w + 1);
           first_ok = (\<not> isnan t1 \<and> \<not> isnan h1);
           retry_ok = (\<not> isnan t2 \<and> \<not> isnan h2);
           (ok, s', w') = DHT_begin w s
       in trace w' = trace w @ [EvDhtBegin, EvDelay 2000, EvReadTemperature, EvReadHumidity]
                     @ (if first_ok then [] else [EvDelay 2000, EvReadTemperature, EvReadHumidity]) \<and>
          dht_initialized s' = (if first_ok then True else retry_ok) \<and>
          ok = dht_initialized s' \<and>
          lastTemp s' = (if first_ok then t1 else if retry_ok then t2 else lastTemp s) \<and>
          lastHumidity s' = (if first_ok then h1 else if retry_ok then h2 else lastHumidity s)"
    proof cases
      case ok
      then show ?thesis by (simp add: DHT_begin_ok [OF dn] Let_def)
    next
      case t
      then show ?thesis by (simp add: DHT_begin_retry [OF dn disjI1] Let_def)
    next
      case h
      then show ?thesis by (simp add: DHT_begin_retry [OF dn disjI2] Let_def)
    qed
  qed
  have b: "bh_new w \<longrightarrow>
      (let l1 = lux_src w (lux_calls w);
           (ok, c', w') = Light_begin w c
       in trace w' = trace w @ (if bh_begin_ok w then [EvBhBegin, EvDelay 180, EvReadLightLevel]
                                else [EvBhBegin]) \<and>
          light_initialized c' = bh_begin_ok w \<and>
          ok = bh_begin_ok w \<and>
          lastLux c' = (if bh_begin_ok w \<and> flt_ge l1 (Fin 0) then l1 else lastLux c))"
    by (simp add: Light_begin_eq Let_def)
  show ?thesis using a b by blast
qed

theorem begin_initialized_witness:
  "fst (DHT_begin w_retry DHTSensor_new) \<and>
   dht_initialized (fst (snd (DHT_begin w_retry DHTSensor_new))) \<and>
   trace (snd (snd (DHT_begin w_retry DHTSensor_new))) =
     [EvDhtBegin, EvDelay 2000, EvReadTemperature, EvReadHumidity,
      EvDelay 2000, EvReadTemperature, EvReadHumidity] \<and>
   lastTemp (fst (snd (DHT_begin w_retry DHTSensor_new))) = Fin 22.5 \<and>
   fst (Light_begin w_base LightSensor_new) \<and>
   trace (snd (snd (Light_begin w_base LightSensor_new))) =
     [EvBhBegin, EvDelay 180, EvReadLightLevel] \<and>
   lastLux (fst (snd (Light_begin w_base LightSensor_new))) = Fin 120"
proof -
  have "dht_new w_retry" "bh_new w_base" by (simp_all add: w_retry_def w_base_def)
  with begin_initialized [of w_retry DHTSensor_new LightSensor_new]
    begin_initialized [of w_base DHTSensor_new LightSensor_new]
  show ?thesis
    by (simp add: w_retry_def w_base_def Let_def flt_defs split: prod.splits)
qed

text \<open>
  The light sensor against C1 as stated: the device starts, every reading it offers is the
  error value -1, and \<^verbatim>\<open>begin()\<close> ends initialised after a single reading.
\<close>

theorem begin_light_counterexample:
  "light_initialized (fst (snd (Light_begin w_lux_err LightSensor_new))) \<and>
   fst (Light_begin w_lux_err LightSensor_new) \<and>
   \<not> flt_ge (lux_src w_lux_err 0) (Fin 0) \<and>
   \<not> flt_ge (lux_src w_lux_err 1) (Fin 0) \<and>
   lux_calls (snd (snd (Light_begin w_lux_err LightSensor_new))) = 1 \<and>
   trace (snd (snd (Light_begin w_lux_err LightSensor_new))) =
     [EvBhBegin, EvDelay 180, EvReadLightLevel]"
  by (simp add: Light_begin_eq w_lux_err_def w_base_def flt_defs)

text \<open>
  What \<^verbatim>\<open>read()\<close> does in each case. An initialised temperature and humidity sensor
  whose new pair fails validation returns the stored temperature and humidity, the heat
  index computed from them and \<open>isValid = false\<close>, and keeps its state; a valid pair is
  returned and stored. A sensor that is not initialised returns zeros and does not touch
  the device. A \<^verbatim>\<open>begin()\<close> that returns true leaves the sensor initialised, and after
  one that returns false \<^verbatim>\<open>read()\<close> returns zeros.
\<close>

lemma DHT_read_cases:
  "(dht_initialized s \<and> dht_ptr s \<and>
    \<not> validateReading (temp_src w (temp_calls w)) (hum_src w (hum_calls w)) \<longrightarrow>
      fst (DHT_read w s) =
        \<lparr>temperature = lastTemp s, humidity = lastHumidity s,
         heatIndex = computeHeatIndex w (lastTemp s) (lastHumidity s), dht_isValid = False\<rparr> \<and>
      fst (snd (DHT_read w s)) = s) \<and>
   (dht_initialized s \<and> dht_ptr s \<and>
    validateReading (temp_src w (temp_calls w)) (hum_src w (hum_calls w)) \<longrightarrow>
      fst (DHT_read w s) =
        \<lparr>temperature = temp_src w (temp_calls w), humidity = hum_src w (hum_calls w),
         heatIndex = computeHeatIndex w (temp_src w (temp_calls w)) (hum_src w (hum_calls w)),
         dht_isValid = True\<rparr> \<and>
      fst (snd (DHT_read w s)) =
        s\<lparr>lastTemp := temp_src w (temp_calls w), lastHumidity := hum_src w (hum_calls w)\<rparr>) \<and>
   (\<not> (dht_initialized s \<and> dht_ptr s) \<longrightarrow>
      DHT_read w s =
        (\<lparr>temperature = Fin 0, humidity = Fin 0, heatIndex = Fin 0, dht_isValid = False\<rparr>, s, w)) \<and>
   (fst (DHT_begin w0 s0) \<longrightarrow>
      dht_initialized (fst (snd (DHT_begin w0 s0))) \<and> dht_ptr (fst (snd (DHT_begin w0 s0)))) \<and>
   (\<not> fst (DHT_begin w0 s0) \<longrightarrow>
      fst (DHT_read w (fst (snd (DHT_begin w0 s0)))) =
        \<lparr>temperature = Fin 0, humidity = Fin 0, heatIndex = Fin 0, dht_isValid = False\<rparr>) \<and>
   fst (DHT_read w DHTSensor_new) =
     \<lparr>temperature = Fin 0, humidity = Fin 0, heatIndex = Fin 0, dht_isValid = False\<rparr>"
proof -
  have a: "dht_initialized s \<and> dht_ptr s \<and>
    \<not> validateReading (temp_src w (temp_calls w)) (hum_src w (hum_calls w)) \<longrightarrow>
      fst (DHT_read w s) =
        \<lparr>temperature = lastTemp s, humidity = lastHumidity s,
         heatIndex = computeHeatIndex w (lastTemp s) (lastHumidity s), dht_isValid = False\<rparr> \<and>
      fst (snd (DHT_read w s)) = s"
    by (simp add: DHT_read_on)
  have b: "dht_initialized s \<and> dht_ptr s \<and>
    validateReading (temp_src w (temp_calls w)) (hum_src w (hum_calls w)) \<longrightarrow>
      fst (DHT_read w s) =
        \<lparr>temperature = temp_src w (temp_calls w), humidity = hum_src w (hum_calls w),
         heatIndex = computeHeatIndex w (temp_src w (temp_calls w)) (hum_src w (hum_calls w)),
         dht_isValid = True\<rparr> \<and>
      fst (snd (DHT_read w s)) =
        s\<lparr>lastTemp := temp_src w (temp_calls w), lastHumidity := hum_src w (hum_calls w)\<rparr>"
    by (simp add: DHT_read_on)
  have c: "\<not> (dht_initialized s \<and> dht_ptr s) \<longrightarrow>
      DHT_read w s =
        (\<lparr>temperature = Fin 0, humidity = Fin 0, heatIndex = Fin 0, dht_isValid = False\<rparr>, s, w)"
    using DHT_read_off by blast
  have beg: "fst (DHT_begin w0 s0) =
      (dht_initialized (fst (snd (DHT_begin w0 s0))) \<and> dht_ptr (fst (snd (DHT_begin w0 s0))))"
  proof (cases "dht_new w0")
    case False
    then show ?thesis by (simp add: DHT_begin_null)
  next
    case True
    show ?thesis
    proof (cases "\<not> isnan (temp_src w0 (temp_calls w0)) \<and> \<not> isnan (hum_src w0 (hum_calls w0))")
      case True
      with \<open>dht_new w0\<close> show ?thesis by (simp add: DHT_begin_ok)
    next
      case False
      then have "isnan (temp_src w0 (temp_calls w0)) \<or> isnan (hum_src w0 (hum_calls w0))" by simp
      from DHT_begin_retry [OF True this] show ?thesis by simp
    qed
  qed
  have d: "fst (DHT_begin w0 s0) \<longrightarrow>
      dht_initialized (fst (snd (DHT_begin w0 s0))) \<and> dht_ptr (fst (snd (DHT_begin w0 s0)))"
    using beg by simp
  have e: "\<not> fst (DHT_begin w0 s0) \<longrightarrow>
      fst (DHT_read w (fst (snd (DHT_begin w0 s0)))) =
        \<lparr>temperature = Fin 0, humidity = Fin 0, heatIndex = Fin 0, dht_isValid = False\<rparr>"
    using beg by (simp add: DHT_read_off)
  have f: "fst (DHT_read w DHTSensor_new) =
     \<lparr>temperature = Fin 0, humidity = Fin 0, heatIndex = Fin 0, dht_isValid = False\<rparr>"
    by (simp add: DHT_read_off DHTSensor_new_def)
  show ?thesis using a b c d e f by blast
qed


text \<open>
  \<^verbatim>\<open>read()\<close> stores a pair only after \<^verbatim>\<open>validateReading\<close> has accepted it, so a stored
  pair that is valid stays valid through every later read.
\<close>

lemma DHT_read_keeps_valid:
  "validateReading (lastTemp s) (lastHumidity s) \<Longrightarrow>
   validateReading (lastTemp (fst (snd (DHT_read w s)))) (lastHumidity (fst (snd (DHT_read w s))))"
  by (cases "dht_initialized s \<and> dht_ptr s") (auto simp: DHT_read_on DHT_read_off)

text \<open>
  \<^verbatim>\<open>begin()\<close> is the other place that stores a pair, and it checks the pair for NaN
  only: a successful \<^verbatim>\<open>begin()\<close> stores whatever numbers it read.
\<close>

lemma DHT_begin_stores_unvalidated:
  "dht_new w \<Longrightarrow> \<not> isnan (temp_src w (temp_calls w)) \<Longrightarrow> \<not> isnan (hum_src w (hum_calls w)) \<Longrightarrow>
   fst (DHT_begin w s) \<and>
   lastTemp (fst (snd (DHT_begin w s))) = temp_src w (temp_calls w) \<and>
   lastHumidity (fst (snd (DHT_begin w s))) = hum_src w (hum_calls w)"
  by (simp add: DHT_begin_ok)

text \<open>
  C2 says that after a successful \<^verbatim>\<open>begin()\<close> a reading that fails validation is
  answered with the last good temperature and humidity. The code does not do that on
  this input: \<^verbatim>\<open>begin()\<close> reads 200 degrees at 150 percent and succeeds, the next
  reading is NaN, and \<^verbatim>\<open>read()\<close> returns 200 and 150 with \<open>isValid = false\<close>, a pair
  that \<^verbatim>\<open>validateReading\<close> rejects.
\<close>

theorem dht_fallback_after_begin:
  "fst (DHT_begin w_hot DHTSensor_new) \<and>
   fst (DHT_read (snd (snd (DHT_begin w_hot DHTSensor_new)))
                 (fst (snd (DHT_begin w_hot DHTSensor_new)))) =
     \<lparr>temperature = Fin 200, humidity = Fin 150,
      heatIndex = computeHeatIndex w_hot (Fin 200) (Fin 150), dht_isValid = False\<rparr> \<and>
   fst (snd (DHT_read (snd (snd (DHT_begin w_hot DHTSensor_new)))
                      (fst (snd (DHT_begin w_hot DHTSensor_new))))) =
     fst (snd (DHT_begin w_hot DHTSensor_new)) \<and>
   \<not> validateReading (Fin 200) (Fin 150)"
proof -
  let ?s = "\<lparr>dht_ptr = True, lastTemp = Fin 200, lastHumidity = Fin 150, dht_initialized = True\<rparr>"
  let ?w = "w_hot\<lparr>temp_calls := Suc 0, hum_calls := Suc 0,
                  trace := [EvDhtBegin, EvDelay 2000, EvReadTemperature, EvReadHumidity]\<rparr>"
  have b: "DHT_begin w_hot DHTSensor_new = (True, ?s, ?w)"
    by (simp add: DHT_begin_ok w_hot_def w_base_def)
  have n: "\<not> validateReading (temp_src ?w (temp_calls ?w)) (hum_src ?w (hum_calls ?w))"
    by (simp add: validateReading_def w_hot_def w_base_def)
  have r: "fst (DHT_read ?w ?s) =
      \<lparr>temperature = Fin 200, humidity = Fin 150,
       heatIndex = computeHeatIndex w_hot (Fin 200) (Fin 150), dht_isValid = False\<rparr>"
    "fst (snd (DHT_read ?w ?s)) = ?s"
    using n by (simp_all add: DHT_read_on)
  have v: "\<not> validateReading (Fin 200) (Fin 150)"
    by (simp add: validateReading_def flt_defs TEMP_MIN_def TEMP_MAX_def
        HUMIDITY_MIN_def HUMIDITY_MAX_def)
  show ?thesis using r v by (simp add: b)
qed

theorem dht_fallback_after_begin_witness:
  "\<not> validateReading
       (temperature (fst (DHT_read (snd (snd (DHT_begin w_hot DHTSensor_new)))
                                   (fst (snd (DHT_begin w_hot DHTSensor_new))))))
       (humidity (fst (DHT_read (snd (snd (DHT_begin w_hot DHTSensor_new)))
                                (fst (snd (DHT_begin w_hot DHTSensor_new)))))) \<and>
   \<not> dht_isValid (fst (DHT_read (snd (snd (DHT_begin w_hot DHTSensor_new)))
                                (fst (snd (DHT_begin w_hot DHTSensor_new)))))"
proof -
  note t = dht_fallback_after_begin
  from t have "fst (DHT_read (snd (snd (DHT_begin w_hot DHTSensor_new)))
                 (fst (snd (DHT_begin w_hot DHTSensor_new)))) =
     \<lparr>temperature = Fin 200, humidity = Fin 150,
      heatIndex = computeHeatIndex w_hot (Fin 200) (Fin 150), dht_isValid = False\<rparr>"
    by blast
  moreover from t have "\<not> validateReading (Fin 200) (Fin 150)"
    by blast
  ultimately show ?thesis by simp
qed

text \<open>
  C10. \<^verbatim>\<open>getLux()\<close> and \<^verbatim>\<open>read()\<close> of the light sensor agree: the same lux value, the
  same sensor state and the same device accesses, in each of the three cases (not
  initialised, reading not negative, reading negative or NaN).
\<close>

theorem getLux_read_agree:
  "fst (getLux w s) = lux (fst (Light_read w s)) \<and>
   snd (getLux w s) = snd (Light_read w s) \<and>
   (\<not> (light_initialized s \<and> bh_ptr s) \<longrightarrow> getLux w s = (Fin 0, s, w)) \<and>
   (light_initialized s \<and> bh_ptr s \<and> flt_ge (lux_src w (lux_calls w)) (Fin 0) \<longrightarrow>
      fst (getLux w s) = lux_src w (lux_calls w) \<and>
      fst (snd (getLux w s)) = s\<lparr>lastLux := lux_src w (lux_calls w)\<rparr>) \<and>
   (light_initialized s \<and> bh_ptr s \<and> \<not> flt_ge (lux_src w (lux_calls w)) (Fin 0) \<longrightarrow>
      fst (getLux w s) = lastLux s \<and> fst (snd (getLux w s)) = s)"
proof (cases "light_initialized s \<and> bh_ptr s")
  case True
  then show ?thesis by (simp add: getLux_on Light_read_on)
next
  case False
  then have "getLux w s = (Fin 0, s, w)"
    "Light_read w s = (\<lparr>lux = Fin 0, condition = CONDITION_DARK, light_isValid = False\<rparr>, s, w)"
    by (rule getLux_off, rule Light_read_off)
  with False show ?thesis by auto
qed

theorem getLux_read_agree_witness:
  "fst (getLux w_base l_ready) = Fin 120 \<and> lux (fst (Light_read w_base l_ready)) = Fin 120 \<and>
   lastLux (fst (snd (getLux w_base l_ready))) = Fin 120 \<and>
   fst (getLux w_lux_err l_ready) = Fin 300 \<and> lux (fst (Light_read w_lux_err l_ready)) = Fin 300 \<and>
   fst (snd (getLux w_lux_err l_ready)) = l_ready \<and>
   fst (snd (Light_read w_lux_err l_ready)) = l_ready \<and>
   getLux w_base LightSensor_new = (Fin 0, LightSensor_new, w_base) \<and>
   lux (fst (Light_read w_base LightSensor_new)) = Fin 0"
proof -
  have a: "light_initialized l_ready \<and> bh_ptr l_ready \<and>
      flt_ge (lux_src w_base (lux_calls w_base)) (Fin 0)"
    by (simp add: l_ready_def w_base_def flt_defs)
  have b: "light_initialized l_ready \<and> bh_ptr l_ready \<and>
      \<not> flt_ge (lux_src w_lux_err (lux_calls w_lux_err)) (Fin 0)"
    by (simp add: l_ready_def w_lux_err_def w_base_def flt_defs)
  have c: "\<not> (light_initialized LightSensor_new \<and> bh_ptr LightSensor_new)"
    by (simp add: LightSensor_new_def)
  have v: "lux_src w_base (lux_calls w_base) = Fin 120" "lastLux l_ready = Fin 300"
    by (simp_all add: w_base_def l_ready_def)
  note t1 = getLux_read_agree [of w_base l_ready]
  note t2 = getLux_read_agree [of w_lux_err l_ready]
  note t3 = getLux_read_agree [of w_base LightSensor_new]
  from t1 have e1: "fst (getLux w_base l_ready) = lux (fst (Light_read w_base l_ready))"
    by blast
  from t1 a have f1: "fst (getLux w_base l_ready) = lux_src w_base (lux_calls w_base)"
    and g1: "fst (snd (getLux w_base l_ready)) = l_ready\<lparr>lastLux := lux_src w_base (lux_calls w_base)\<rparr>"
    by blast+
  from t2 have e2: "fst (getLux w_lux_err l_ready) = lux (fst (Light_read w_lux_err l_ready))"
    and h2: "snd (getLux w_lux_err l_ready) = snd (Light_read w_lux_err l_ready)"
    by blast+
  from t2 b have f2: "fst (getLux w_lux_err l_ready) = lastLux l_ready"
    and g2: "fst (snd (getLux w_lux_err l_ready)) = l_ready"
    by blast+
  from t3 have e3: "fst (getLux w_base LightSensor_new) = lux (fst (Light_read w_base LightSensor_new))"
    by blast
  from t3 c have f3: "getLux w_base LightSensor_new = (Fin 0, LightSensor_new, w_base)"
    by blast
  have "fst (getLux w_base l_ready) = Fin 120" using f1 v by simp
  moreover have "lux (fst (Light_read w_base l_ready)) = Fin 120" using e1 f1 v by simp
  moreover have "lastLux (fst (snd (getLux w_base l_ready))) = Fin 120" using g1 v by simp
  moreover have "fst (getLux w_lux_err l_ready) = Fin 300" using f2 v by simp
  moreover have "lux (fst (Light_read w_lux_err l_ready)) = Fin 300" using e2 f2 v by simp
  moreover have "fst (snd (getLux w_lux_err l_ready)) = l_ready" by (rule g2)
  moreover have "fst (snd (Light_read w_lux_err l_ready)) = l_ready" using g2 h2 by simp
  moreover have "getLux w_base LightSensor_new = (Fin 0, LightSensor_new, w_base)" by (rule f3)
  moreover have "lux (fst (Light_read w_base LightSensor_new)) = Fin 0" using e3 f3 by simp
  ultimately show ?thesis by blast
qed

section \<open>The scheduler\<close>

lemma filter_report_samples:
  "filter is_report (concat (replicate k [EvAnalogRead, EvDelayMicroseconds 100])) = []"
  by (induction k) simp_all

lemma loop_audio_effect:
  assumes "loop_audio now w g = (g1, w1)"
  shows "lastSensorRead g1 = lastSensorRead g"
    and "dhtSensor g1 = dhtSensor g" and "lightSensor g1 = lightSensor g"
    and "sd_temperature (sensorData g1) = sd_temperature (sensorData g)"
    and "sd_humidity (sensorData g1) = sd_humidity (sensorData g)"
    and "lightLevel (sensorData g1) = lightLevel (sensorData g)"
    and "lastAudioSample g1 =
          (if now - lastAudioSample g \<ge> AUDIO_SAMPLE_INTERVAL then now else lastAudioSample g)"
    and "w1 = (if now - lastAudioSample g \<ge> AUDIO_SAMPLE_INTERVAL
               then w\<lparr>adc_calls := adc_calls w + 64,
                      trace := trace w @ concat (replicate 64 [EvAnalogRead, EvDelayMicroseconds 100])\<rparr>
               else w)"
proof -
  obtain r m wm where m: "Mic_read w (micSensor g) = (r, m, wm)" by (metis prod_cases3)
  note mw = Mic_read_world [OF m]
  show "lastSensorRead g1 = lastSensorRead g"
    and "dhtSensor g1 = dhtSensor g" and "lightSensor g1 = lightSensor g"
    and "sd_temperature (sensorData g1) = sd_temperature (sensorData g)"
    and "sd_humidity (sensorData g1) = sd_humidity (sensorData g)"
    and "lightLevel (sensorData g1) = lightLevel (sensorData g)"
    and "lastAudioSample g1 =
          (if now - lastAudioSample g \<ge> AUDIO_SAMPLE_INTERVAL then now else lastAudioSample g)"
    using assms m by (auto simp: loop_audio_def Let_def split: if_splits)
  show "w1 = (if now - lastAudioSample g \<ge> AUDIO_SAMPLE_INTERVAL
               then w\<lparr>adc_calls := adc_calls w + 64,
                      trace := trace w @ concat (replicate 64 [EvAnalogRead, EvDelayMicroseconds 100])\<rparr>
               else w)"
    using assms m mw by (auto simp: loop_audio_def Let_def split: if_splits)
qed

lemma DHT_read_frame:
  assumes "DHT_read w s = (r, s1, w1)"
  shows "millis_src w1 = millis_src w" "millis_calls w1 = millis_calls w"
    "adc_src w1 = adc_src w" "adc_calls w1 = adc_calls w"
    "lux_src w1 = lux_src w" "lux_calls w1 = lux_calls w"
    "reports w1 = reports w"
  using assms
  by (cases "dht_initialized s \<and> dht_ptr s";
      auto simp: DHT_read_on DHT_read_off reports_def split: if_splits)+

lemma Light_read_frame:
  assumes "Light_read w s = (r, s1, w1)"
  shows "millis_src w1 = millis_src w" "millis_calls w1 = millis_calls w"
    "adc_src w1 = adc_src w" "adc_calls w1 = adc_calls w"
    "reports w1 = reports w"
  using assms
  by (cases "light_initialized s \<and> bh_ptr s";
      auto simp: Light_read_on Light_read_off reports_def split: if_splits)+


lemma loop_env_idle:
  "\<not> now - lastSensorRead g \<ge> SENSOR_READ_INTERVAL \<Longrightarrow> loop_env now w g = (g, w)"
  by (simp add: loop_env_def)

lemma loop_env_due:
  assumes "now - lastSensorRead g \<ge> SENSOR_READ_INTERVAL"
    and "DHT_read w (dhtSensor g) = (dr, d, w1)"
    and "Light_read w1 (lightSensor g) = (lr, l, w2)"
    and "loop_env now w g = (g', w')"
  shows "lastSensorRead g' = now" and "lastAudioSample g' = lastAudioSample g"
    and "dhtSensor g' = d" and "lightSensor g' = l"
    and "micSensor g' = resetPeak (micSensor g)"
    and "sd_temperature (sensorData g') =
          (if dht_isValid dr then temperature dr else sd_temperature (sensorData g))"
    and "sd_humidity (sensorData g') =
          (if dht_isValid dr then humidity dr else sd_humidity (sensorData g))"
    and "lightLevel (sensorData g') =
          (if light_isValid lr then lux lr else lightLevel (sensorData g))"
    and "audioLevel (sensorData g') = audioLevel (sensorData g)"
    and "audioPeak (sensorData g') = audioPeak (sensorData g)"
    and "w' = printSensorData w2 g'"
proof -
  have "lastSensorRead g' = now \<and> lastAudioSample g' = lastAudioSample g \<and>
    dhtSensor g' = d \<and> lightSensor g' = l \<and> micSensor g' = resetPeak (micSensor g) \<and>
    sd_temperature (sensorData g') =
          (if dht_isValid dr then temperature dr else sd_temperature (sensorData g)) \<and>
    sd_humidity (sensorData g') =
          (if dht_isValid dr then humidity dr else sd_humidity (sensorData g)) \<and>
    lightLevel (sensorData g') =
          (if light_isValid lr then lux lr else lightLevel (sensorData g)) \<and>
    audioLevel (sensorData g') = audioLevel (sensorData g) \<and>
    audioPeak (sensorData g') = audioPeak (sensorData g) \<and>
    w' = printSensorData w2 g'"
    using assms
    by (cases "dht_isValid dr"; cases "light_isValid lr") (auto simp: loop_env_def Let_def)
  then show "lastSensorRead g' = now" and "lastAudioSample g' = lastAudioSample g"
    and "dhtSensor g' = d" and "lightSensor g' = l"
    and "micSensor g' = resetPeak (micSensor g)"
    and "sd_temperature (sensorData g') =
          (if dht_isValid dr then temperature dr else sd_temperature (sensorData g))"
    and "sd_humidity (sensorData g') =
          (if dht_isValid dr then humidity dr else sd_humidity (sensorData g))"
    and "lightLevel (sensorData g') =
          (if light_isValid lr then lux lr else lightLevel (sensorData g))"
    and "audioLevel (sensorData g') = audioLevel (sensorData g)"
    and "audioPeak (sensorData g') = audioPeak (sensorData g)"
    and "w' = printSensorData w2 g'"
    by blast+
qed

lemma reports_emit: "reports (emit e w) = reports w + (if is_report e then 1 else 0)"
  by (simp add: reports_def emit_def)

lemma printSensorData_frame:
  "millis_src (printSensorData w g) = millis_src w"
  "millis_calls (printSensorData w g) = millis_calls w"
  "adc_calls (printSensorData w g) = adc_calls w"
  "reports (printSensorData w g) = reports w + 1"
  "trace (printSensorData w g) =
     trace w @ [EvPrint (sd_temperature (sensorData g)) (sd_humidity (sensorData g))
                  (lightLevel (sensorData g)) (audioLevel (sensorData g)) (audioPeak (sensorData g))]"
  by (simp_all add: printSensorData_def reports_def emit_def)

lemma loop_effect:
  assumes "loop w g = (g', w')"
  defines "now \<equiv> millis_src w (millis_calls w)"
  shows "millis_src w' = millis_src w" and "millis_calls w' = millis_calls w + 1"
    and "lastAudioSample g' =
          (if now - lastAudioSample g \<ge> AUDIO_SAMPLE_INTERVAL then now else lastAudioSample g)"
    and "lastSensorRead g' =
          (if now - lastSensorRead g \<ge> SENSOR_READ_INTERVAL then now else lastSensorRead g)"
    and "adc_calls w' =
          adc_calls w + (if now - lastAudioSample g \<ge> AUDIO_SAMPLE_INTERVAL then 64 else 0)"
    and "reports w' =
          reports w + (if now - lastSensorRead g \<ge> SENSOR_READ_INTERVAL then 1 else 0)"
proof -
  let ?w0 = "emit EvMillis (w\<lparr>millis_calls := millis_calls w + 1\<rparr>)"
  have m: "millis w = (now, ?w0)" by (simp add: millis_def now_def)
  have w0: "millis_src ?w0 = millis_src w" "millis_calls ?w0 = millis_calls w + 1"
    "adc_calls ?w0 = adc_calls w" "reports ?w0 = reports w"
    by (simp_all add: emit_def reports_def)
  obtain g1 w1 where a: "loop_audio now ?w0 g = (g1, w1)" by (metis prod.exhaust)
  note ae = loop_audio_effect [OF a]
  have w1: "millis_src w1 = millis_src w" "millis_calls w1 = millis_calls w + 1"
    "adc_calls w1 = adc_calls w + (if now - lastAudioSample g \<ge> AUDIO_SAMPLE_INTERVAL then 64 else 0)"
    "reports w1 = reports w"
    using ae(8) w0 by (simp_all add: reports_def filter_report_samples)
  have e: "loop_env now w1 g1 = (g', w')"
    using assms(1) m a by (simp add: loop_def)
  obtain dr d w2 where dr: "DHT_read w1 (dhtSensor g1) = (dr, d, w2)" by (metis prod_cases3)
  obtain lr l w3 where lr: "Light_read w2 (lightSensor g1) = (lr, l, w3)" by (metis prod_cases3)
  note df = DHT_read_frame [OF dr] and lf = Light_read_frame [OF lr]
  have "millis_src w' = millis_src w \<and> millis_calls w' = millis_calls w + 1 \<and>
    lastAudioSample g' =
          (if now - lastAudioSample g \<ge> AUDIO_SAMPLE_INTERVAL then now else lastAudioSample g) \<and>
    lastSensorRead g' =
          (if now - lastSensorRead g \<ge> SENSOR_READ_INTERVAL then now else lastSensorRead g) \<and>
    adc_calls w' =
          adc_calls w + (if now - lastAudioSample g \<ge> AUDIO_SAMPLE_INTERVAL then 64 else 0) \<and>
    reports w' =
          reports w + (if now - lastSensorRead g \<ge> SENSOR_READ_INTERVAL then 1 else 0)"
  proof (cases "now - lastSensorRead g1 \<ge> SENSOR_READ_INTERVAL")
    case True
    note ee = loop_env_due [OF True dr lr e]
    from True have due: "now - lastSensorRead g \<ge> SENSOR_READ_INTERVAL" using ae(1) by simp
    have "millis_src w' = millis_src w" "millis_calls w' = millis_calls w + 1"
      "adc_calls w' =
          adc_calls w + (if now - lastAudioSample g \<ge> AUDIO_SAMPLE_INTERVAL then 64 else 0)"
      "reports w' = reports w + 1"
      using ee(11) df lf w1 by (simp_all add: printSensorData_frame)
    then show ?thesis using ee(1,2) ae(7) due by simp
  next
    case False
    from False have idle: "\<not> now - lastSensorRead g \<ge> SENSOR_READ_INTERVAL" using ae(1) by simp
    from loop_env_idle [OF False] e have eq: "g' = g1" "w' = w1" by simp_all
    show ?thesis using eq w1 ae(1,7) idle by simp
  qed
  then show "millis_src w' = millis_src w" and "millis_calls w' = millis_calls w + 1"
    and "lastAudioSample g' =
          (if now - lastAudioSample g \<ge> AUDIO_SAMPLE_INTERVAL then now else lastAudioSample g)"
    and "lastSensorRead g' =
          (if now - lastSensorRead g \<ge> SENSOR_READ_INTERVAL then now else lastSensorRead g)"
    and "adc_calls w' =
          adc_calls w + (if now - lastAudioSample g \<ge> AUDIO_SAMPLE_INTERVAL then 64 else 0)"
    and "reports w' =
          reports w + (if now - lastSensorRead g \<ge> SENSOR_READ_INTERVAL then 1 else 0)"
    by blast+
qed

lemma run_Suc: "run (Suc k) w g = loop (snd (run k w g)) (fst (run k w g))"
  by (cases "run k w g") simp

lemma run_clock:
  "millis_src (snd (run k w g)) = millis_src w \<and> millis_calls (snd (run k w g)) = millis_calls w + k"
proof (induction k)
  case 0
  then show ?case by simp
next
  case (Suc k)
  have "loop (snd (run k w g)) (fst (run k w g)) = (fst (run (Suc k) w g), snd (run (Suc k) w g))"
    by (simp del: run.simps add: run_Suc)
  from loop_effect(1,2) [OF this] Suc show ?case by simp
qed

lemma tick_now_eq: "tick_now k w g = millis_src w (millis_calls w + k)"
  using run_clock [of k w g] by (simp add: tick_now_def split_beta)

lemma run_step:
  "audio_ref (Suc k) w g = (if audio_due k w g then tick_now k w g else audio_ref k w g)"
  "env_ref (Suc k) w g = (if env_due k w g then tick_now k w g else env_ref k w g)"
  "adc_calls (snd (run (Suc k) w g)) =
     adc_calls (snd (run k w g)) + (if audio_due k w g then 64 else 0)"
  "reports (snd (run (Suc k) w g)) =
     reports (snd (run k w g)) + (if env_due k w g then 1 else 0)"
proof -
  have l: "loop (snd (run k w g)) (fst (run k w g)) = (fst (run (Suc k) w g), snd (run (Suc k) w g))"
    by (simp del: run.simps add: run_Suc)
  have n: "millis_src (snd (run k w g)) (millis_calls (snd (run k w g))) = tick_now k w g"
    by (simp add: tick_now_def split_beta)
  note le = loop_effect [OF l, unfolded n]
  show "audio_ref (Suc k) w g = (if audio_due k w g then tick_now k w g else audio_ref k w g)"
    using le(3) by (simp add: audio_ref_def audio_due_def)
  show "env_ref (Suc k) w g = (if env_due k w g then tick_now k w g else env_ref k w g)"
    using le(4) by (simp add: env_ref_def env_due_def)
  show "adc_calls (snd (run (Suc k) w g)) =
     adc_calls (snd (run k w g)) + (if audio_due k w g then 64 else 0)"
    using le(5) by (simp add: audio_ref_def audio_due_def)
  show "reports (snd (run (Suc k) w g)) =
     reports (snd (run k w g)) + (if env_due k w g then 1 else 0)"
    using le(6) by (simp add: env_ref_def env_due_def)
qed

lemma audio_ref_hold:
  "i < j \<Longrightarrow> audio_due i w g \<Longrightarrow> \<forall>l. i < l \<and> l < j \<longrightarrow> \<not> audio_due l w g \<Longrightarrow>
   audio_ref j w g = tick_now i w g"
proof (induction j)
  case 0
  then show ?case by simp
next
  case (Suc j)
  show ?case
  proof (cases "i = j")
    case True
    with Suc.prems show ?thesis by (simp add: run_step(1))
  next
    case False
    with Suc.prems have "i < j" "\<not> audio_due j w g" by auto
    with Suc show ?thesis by (simp add: run_step(1))
  qed
qed

lemma env_ref_hold:
  "i < j \<Longrightarrow> env_due i w g \<Longrightarrow> \<forall>l. i < l \<and> l < j \<longrightarrow> \<not> env_due l w g \<Longrightarrow>
   env_ref j w g = tick_now i w g"
proof (induction j)
  case 0
  then show ?case by simp
next
  case (Suc j)
  show ?case
  proof (cases "i = j")
    case True
    with Suc.prems show ?thesis by (simp add: run_step(2))
  next
    case False
    with Suc.prems have "i < j" "\<not> env_due j w g" by auto
    with Suc show ?thesis by (simp add: run_step(2))
  qed
qed


text \<open>
  C5. In every pass of the loop, under any clock, each timer fires exactly when the
  unsigned difference between the clock value and its reference time has reached its
  interval (100 for audio, 2000 for the environment): the audio timer's firing is the 64
  samples of a microphone reading, the environmental timer's firing is the report. A
  timer that fires takes the clock value of the pass as its new reference time, and a
  timer that does not fire keeps its reference. Hence the reference moves by at least the
  interval at each firing, and two firings with none in between are at least the interval
  apart.
\<close>

theorem timers_fire_when_due:
  "tick_now k w g = millis_src w (millis_calls w + k) \<and>
   audio_ref (Suc k) w g = (if audio_due k w g then tick_now k w g else audio_ref k w g) \<and>
   env_ref (Suc k) w g = (if env_due k w g then tick_now k w g else env_ref k w g) \<and>
   adc_calls (snd (run (Suc k) w g)) =
     adc_calls (snd (run k w g)) + (if audio_due k w g then 64 else 0) \<and>
   reports (snd (run (Suc k) w g)) =
     reports (snd (run k w g)) + (if env_due k w g then 1 else 0) \<and>
   (audio_due k w g \<longrightarrow> audio_ref (Suc k) w g - audio_ref k w g \<ge> 100) \<and>
   (env_due k w g \<longrightarrow> env_ref (Suc k) w g - env_ref k w g \<ge> 2000) \<and>
   (i < j \<and> audio_due i w g \<and> audio_due j w g \<and> (\<forall>l. i < l \<and> l < j \<longrightarrow> \<not> audio_due l w g) \<longrightarrow>
      tick_now j w g - tick_now i w g \<ge> 100) \<and>
   (i < j \<and> env_due i w g \<and> env_due j w g \<and> (\<forall>l. i < l \<and> l < j \<longrightarrow> \<not> env_due l w g) \<longrightarrow>
      tick_now j w g - tick_now i w g \<ge> 2000)"
proof -
  have a: "audio_due k w g \<longrightarrow> audio_ref (Suc k) w g - audio_ref k w g \<ge> 100"
    by (simp add: run_step(1)) (simp add: audio_due_def AUDIO_SAMPLE_INTERVAL_def)
  have b: "env_due k w g \<longrightarrow> env_ref (Suc k) w g - env_ref k w g \<ge> 2000"
    by (simp add: run_step(2)) (simp add: env_due_def SENSOR_READ_INTERVAL_def)
  have c: "i < j \<and> audio_due i w g \<and> audio_due j w g \<and>
      (\<forall>l. i < l \<and> l < j \<longrightarrow> \<not> audio_due l w g) \<longrightarrow> tick_now j w g - tick_now i w g \<ge> 100"
  proof (intro impI, elim conjE)
    assume h: "i < j" "audio_due i w g" "audio_due j w g"
      "\<forall>l. i < l \<and> l < j \<longrightarrow> \<not> audio_due l w g"
    from audio_ref_hold [OF h(1,2,4)] h(3) show "tick_now j w g - tick_now i w g \<ge> 100"
      by (simp add: audio_due_def AUDIO_SAMPLE_INTERVAL_def)
  qed
  have d: "i < j \<and> env_due i w g \<and> env_due j w g \<and>
      (\<forall>l. i < l \<and> l < j \<longrightarrow> \<not> env_due l w g) \<longrightarrow> tick_now j w g - tick_now i w g \<ge> 2000"
  proof (intro impI, elim conjE)
    assume h: "i < j" "env_due i w g" "env_due j w g"
      "\<forall>l. i < l \<and> l < j \<longrightarrow> \<not> env_due l w g"
    from env_ref_hold [OF h(1,2,4)] h(3) show "tick_now j w g - tick_now i w g \<ge> 2000"
      by (simp add: env_due_def SENSOR_READ_INTERVAL_def)
  qed
  show ?thesis
    using tick_now_eq [of k w g] run_step [of k w g] a b c d by blast
qed

theorem timers_fire_when_due_witness:
  "\<not> audio_due 0 w_base g_boot \<and> \<not> audio_due 1 w_base g_boot \<and> audio_due 2 w_base g_boot \<and>
   \<not> audio_due 3 w_base g_boot \<and> audio_due 4 w_base g_boot \<and>
   tick_now 4 w_base g_boot - tick_now 2 w_base g_boot \<ge> 100 \<and>
   adc_calls (snd (run 3 w_base g_boot)) = 64 \<and>
   \<not> env_due 0 w_slow g_boot \<and> \<not> env_due 1 w_slow g_boot \<and> env_due 2 w_slow g_boot \<and>
   \<not> env_due 3 w_slow g_boot \<and> env_due 4 w_slow g_boot \<and>
   tick_now 4 w_slow g_boot - tick_now 2 w_slow g_boot \<ge> 2000 \<and>
   reports (snd (run 3 w_slow g_boot)) = 1"
proof -
  note T = timers_fire_when_due
  note ids = audio_due_def env_due_def AUDIO_SAMPLE_INTERVAL_def SENSOR_READ_INTERVAL_def
  have n: "(1::nat) = Suc 0" "(2::nat) = Suc (Suc 0)" "(3::nat) = Suc (Suc (Suc 0))"
    "(4::nat) = Suc (Suc (Suc (Suc 0)))"
    by simp_all
  have only3: "\<forall>l::nat. Suc (Suc 0) < l \<and> l < Suc (Suc (Suc (Suc 0))) \<longrightarrow> l = Suc (Suc (Suc 0))"
    by arith
  have t: "tick_now k w_base g_boot = 50 * of_nat k" for k
    using T [of k w_base g_boot 0 0] by (simp add: w_base_def)
  have a0: "audio_ref 0 w_base g_boot = 0" "adc_calls (snd (run 0 w_base g_boot)) = 0"
    by (simp_all add: audio_ref_def g_boot_def w_base_def)
  have d0: "\<not> audio_due 0 w_base g_boot" by (simp add: ids a0 t)
  have a1: "audio_ref (Suc 0) w_base g_boot = 0" "adc_calls (snd (run (Suc 0) w_base g_boot)) = 0"
    using T [of 0 w_base g_boot 0 0] d0 a0 by simp_all
  have d1: "\<not> audio_due (Suc 0) w_base g_boot" by (simp add: ids a1 t)
  have a2: "audio_ref (Suc (Suc 0)) w_base g_boot = 0"
    "adc_calls (snd (run (Suc (Suc 0)) w_base g_boot)) = 0"
    using T [of "Suc 0" w_base g_boot 0 0] d1 a1 by simp_all
  have d2: "audio_due (Suc (Suc 0)) w_base g_boot" by (simp add: ids a2 t)
  have a3: "audio_ref (Suc (Suc (Suc 0))) w_base g_boot = 100"
    "adc_calls (snd (run (Suc (Suc (Suc 0))) w_base g_boot)) = 64"
    using T [of "Suc (Suc 0)" w_base g_boot 0 0] d2 a2 by (simp_all add: t)
  have d3: "\<not> audio_due (Suc (Suc (Suc 0))) w_base g_boot" by (simp add: ids a3 t)
  have a4: "audio_ref (Suc (Suc (Suc (Suc 0)))) w_base g_boot = 100"
    using T [of "Suc (Suc (Suc 0))" w_base g_boot 0 0] d3 a3 by simp
  have d4: "audio_due (Suc (Suc (Suc (Suc 0)))) w_base g_boot" by (simp add: ids a4 t)
  have gap: "\<forall>l. Suc (Suc 0) < l \<and> l < Suc (Suc (Suc (Suc 0))) \<longrightarrow> \<not> audio_due l w_base g_boot"
    using only3 d3 by metis
  have s: "tick_now (Suc (Suc (Suc (Suc 0)))) w_base g_boot - tick_now (Suc (Suc 0)) w_base g_boot \<ge> 100"
    using T [of 0 w_base g_boot "Suc (Suc 0)" "Suc (Suc (Suc (Suc 0)))"] d2 d4 gap by simp
  have u: "tick_now k w_slow g_boot = 1000 * of_nat k" for k
    using T [of k w_slow g_boot 0 0] by (simp add: w_slow_def w_base_def)
  have e0: "env_ref 0 w_slow g_boot = 0" "reports (snd (run 0 w_slow g_boot)) = 0"
    by (simp_all add: env_ref_def g_boot_def w_slow_def w_base_def reports_def)
  have f0: "\<not> env_due 0 w_slow g_boot" by (simp add: ids e0 u)
  have e1: "env_ref (Suc 0) w_slow g_boot = 0" "reports (snd (run (Suc 0) w_slow g_boot)) = 0"
    using T [of 0 w_slow g_boot 0 0] f0 e0 by simp_all
  have f1: "\<not> env_due (Suc 0) w_slow g_boot" by (simp add: ids e1 u)
  have e2: "env_ref (Suc (Suc 0)) w_slow g_boot = 0"
    "reports (snd (run (Suc (Suc 0)) w_slow g_boot)) = 0"
    using T [of "Suc 0" w_slow g_boot 0 0] f1 e1 by simp_all
  have f2: "env_due (Suc (Suc 0)) w_slow g_boot" by (simp add: ids e2 u)
  have e3: "env_ref (Suc (Suc (Suc 0))) w_slow g_boot = 2000"
    "reports (snd (run (Suc (Suc (Suc 0))) w_slow g_boot)) = 1"
    using T [of "Suc (Suc 0)" w_slow g_boot 0 0] f2 e2 by (simp_all add: u)
  have f3: "\<not> env_due (Suc (Suc (Suc 0))) w_slow g_boot" by (simp add: ids e3 u)
  have e4: "env_ref (Suc (Suc (Suc (Suc 0)))) w_slow g_boot = 2000"
    using T [of "Suc (Suc (Suc 0))" w_slow g_boot 0 0] f3 e3 by simp
  have f4: "env_due (Suc (Suc (Suc (Suc 0)))) w_slow g_boot" by (simp add: ids e4 u)
  have gap': "\<forall>l. Suc (Suc 0) < l \<and> l < Suc (Suc (Suc (Suc 0))) \<longrightarrow> \<not> env_due l w_slow g_boot"
    using only3 f3 by metis
  have s': "tick_now (Suc (Suc (Suc (Suc 0)))) w_slow g_boot - tick_now (Suc (Suc 0)) w_slow g_boot \<ge> 2000"
    using T [of 0 w_slow g_boot "Suc (Suc 0)" "Suc (Suc (Suc (Suc 0)))"] f2 f4 gap' by simp
  show ?thesis
    unfolding n using d0 d1 d2 d3 d4 s a3(2) f0 f1 f2 f3 f4 s' e3(2) by simp
qed


text \<open>
  C8. In a pass in which the environmental timer fires, the snapshot takes the
  temperature and humidity of the reading only if that reading is valid, and the light
  level likewise; after an invalid reading the fields hold what they held before the
  pass. The microphone's peak is then reset, and the report is printed from the state so
  obtained, as the last event of the pass.
\<close>

theorem env_tick_snapshot:
  assumes "millis w = (now, w1)"
    and "loop_audio now w1 g = (g1, w2)"
    and "DHT_read w2 (dhtSensor g) = (dr, d, w3)"
    and "Light_read w3 (lightSensor g) = (lr, l, w4)"
    and "loop w g = (g', w')"
    and "now - lastSensorRead g \<ge> SENSOR_READ_INTERVAL"
  shows "sd_temperature (sensorData g') =
           (if dht_isValid dr then temperature dr else sd_temperature (sensorData g)) \<and>
         sd_humidity (sensorData g') =
           (if dht_isValid dr then humidity dr else sd_humidity (sensorData g)) \<and>
         lightLevel (sensorData g') =
           (if light_isValid lr then lux lr else lightLevel (sensorData g)) \<and>
         (\<not> dht_isValid dr \<longrightarrow>
            sd_temperature (sensorData g') = sd_temperature (sensorData g) \<and>
            sd_humidity (sensorData g') = sd_humidity (sensorData g)) \<and>
         (\<not> light_isValid lr \<longrightarrow> lightLevel (sensorData g') = lightLevel (sensorData g)) \<and>
         dhtSensor g' = d \<and> lightSensor g' = l \<and>
         micSensor g' = resetPeak (micSensor g1) \<and>
         w' = printSensorData w4 g' \<and>
         trace w' = trace w4 @
           [EvPrint (sd_temperature (sensorData g')) (sd_humidity (sensorData g'))
              (lightLevel (sensorData g')) (audioLevel (sensorData g')) (audioPeak (sensorData g'))]"
proof -
  note ae = loop_audio_effect [OF assms(2)]
  have e: "loop_env now w2 g1 = (g', w')"
    using assms(1,2,5) by (simp add: loop_def)
  have due: "now - lastSensorRead g1 \<ge> SENSOR_READ_INTERVAL"
    using assms(6) ae(1) by simp
  have dr: "DHT_read w2 (dhtSensor g1) = (dr, d, w3)"
    using assms(3) ae(2) by simp
  have lr: "Light_read w3 (lightSensor g1) = (lr, l, w4)"
    using assms(4) ae(3) by simp
  note ee = loop_env_due [OF due dr lr e]
  show ?thesis
    using ee ae(4,5,6) by (simp add: printSensorData_frame)
qed

theorem env_tick_snapshot_witness:
  "sd_temperature (sensorData (fst (loop w_tick g_run))) = Fin 22.5 \<and>
   sd_humidity (sensorData (fst (loop w_tick g_run))) = Fin 40 \<and>
   lightLevel (sensorData (fst (loop w_tick g_run))) = Fin 300 \<and>
   lightLevel (sensorData g_run) = Fin 300 \<and>
   peakLevel (micSensor (fst (loop w_tick g_run))) = 0 \<and>
   last (trace (snd (loop w_tick g_run))) =
     EvPrint (Fin 22.5) (Fin 40) (Fin 300)
       (audioLevel (sensorData (fst (loop w_tick g_run))))
       (audioPeak (sensorData (fst (loop w_tick g_run))))"
proof -
  let ?w1 = "emit EvMillis (w_tick\<lparr>millis_calls := Suc 0\<rparr>)"
  let ?g1 = "fst (loop_audio 2000 ?w1 g_run)"
  let ?w2 = "snd (loop_audio 2000 ?w1 g_run)"
  let ?w3 = "?w2\<lparr>temp_calls := Suc 0, hum_calls := Suc 0,
                  trace := trace ?w2 @ [EvReadTemperature, EvReadHumidity]\<rparr>"
  let ?w4 = "?w3\<lparr>lux_calls := Suc 0, trace := trace ?w3 @ [EvReadLightLevel]\<rparr>"
  let ?dr = "\<lparr>temperature = Fin 22.5, humidity = Fin 40,
              heatIndex = computeHeatIndex ?w2 (Fin 22.5) (Fin 40), dht_isValid = True\<rparr>"
  let ?d = "d_ready\<lparr>lastTemp := Fin 22.5, lastHumidity := Fin 40\<rparr>"
  let ?lr = "\<lparr>lux = Fin 300, condition = getCondition (Fin 300), light_isValid = False\<rparr>"
  have m: "millis w_tick = (2000, ?w1)"
    by (simp add: millis_def w_tick_def w_lux_err_def w_base_def)
  have a: "loop_audio 2000 ?w1 g_run = (?g1, ?w2)" by simp
  have w2: "temp_src ?w2 = (\<lambda>k. Fin 22.5)" "hum_src ?w2 = (\<lambda>k. Fin 40)"
    "temp_calls ?w2 = 0" "hum_calls ?w2 = 0" "lux_src ?w2 = (\<lambda>k. Fin (- 1))" "lux_calls ?w2 = 0"
    unfolding loop_audio_effect(8) [OF a]
    by (simp_all add: emit_def w_tick_def w_lux_err_def w_base_def)
  have v: "validateReading (Fin 22.5) (Fin 40)"
    by (simp add: validateReading_def flt_defs TEMP_MIN_def TEMP_MAX_def
        HUMIDITY_MIN_def HUMIDITY_MAX_def)
  have g: "dhtSensor g_run = d_ready" "lightSensor g_run = l_ready" "lastSensorRead g_run = 0"
    "lightLevel (sensorData g_run) = Fin 300"
    by (simp_all add: g_run_def g_boot_def)
  have dr: "DHT_read ?w2 (dhtSensor g_run) = (?dr, ?d, ?w3)"
    using v by (simp add: g DHT_read_on d_ready_def w2)
  have lr: "Light_read ?w3 (lightSensor g_run) = (?lr, l_ready, ?w4)"
    by (simp add: g Light_read_on l_ready_def w2 flt_defs)
  have l: "loop w_tick g_run = (fst (loop w_tick g_run), snd (loop w_tick g_run))" by simp
  have due: "2000 - lastSensorRead g_run \<ge> SENSOR_READ_INTERVAL"
    by (simp add: g SENSOR_READ_INTERVAL_def)
  note t = env_tick_snapshot [OF m a dr lr l due]
  let ?g = "fst (loop w_tick g_run)"
  from t have p1: "sd_temperature (sensorData ?g) = Fin 22.5" by simp
  from t have p2: "sd_humidity (sensorData ?g) = Fin 40" by simp
  from t g(4) have p3: "lightLevel (sensorData ?g) = Fin 300" by simp
  from t have "micSensor ?g = resetPeak (micSensor ?g1)" by blast
  then have p4: "peakLevel (micSensor ?g) = 0" by (simp add: resetPeak_def)
  from t have "trace (snd (loop w_tick g_run)) = trace ?w4 @
      [EvPrint (sd_temperature (sensorData ?g)) (sd_humidity (sensorData ?g))
         (lightLevel (sensorData ?g)) (audioLevel (sensorData ?g)) (audioPeak (sensorData ?g))]"
    by blast
  then have p5: "last (trace (snd (loop w_tick g_run))) =
      EvPrint (Fin 22.5) (Fin 40) (Fin 300) (audioLevel (sensorData ?g)) (audioPeak (sensorData ?g))"
    by (simp add: p1 p2 p3)
  show ?thesis using p1 p2 p3 p4 p5 g(4) by blast
qed

end
